theory Spec2Isabelle
  imports Complex_Main "HOL-Library.AList"
begin

section \<open>Hyperboloid navigation: Lorentz operators and the event handlers\<close>

text \<open>
  The development embeds \<^verbatim>\<open>dev/raytracing/hyperboloid_navigation.py\<close>: the table
  \<^verbatim>\<open>_key_movement_bindings\<close> and the handlers of the class
  \<^verbatim>\<open>HyperboloidNavigation\<close>. Python floats are idealised as real numbers, so
  rounding is not part of the model; \<^verbatim>\<open>time.time()\<close> is a parameter of the
  handlers that read the clock. The module \<^verbatim>\<open>hyperboloid_utilities\<close> (the matrix
  and vector classes and the constructors of the O(1,3) matrices) is imported by the
  source but is not among the source files; its functions are modelled from the
  specification and are marked as such.
\<close>

subsection \<open>Matrices\<close>

type_synonym vec3 = "real \<times> real \<times> real"
type_synonym vec4 = "real \<times> real \<times> real \<times> real"

text \<open>A matrix is the tuple of its four rows, as in \<^verbatim>\<open>matrix([[..],[..],[..],[..]])\<close>.\<close>

type_synonym mat4 = "vec4 \<times> vec4 \<times> vec4 \<times> vec4"

fun dot4 :: "vec4 \<Rightarrow> vec4 \<Rightarrow> real" where
  "dot4 (a0, a1, a2, a3) (b0, b1, b2, b3) = a0 * b0 + a1 * b1 + a2 * b2 + a3 * b3"

fun transpose4 :: "mat4 \<Rightarrow> mat4" where
  "transpose4 ((a00, a01, a02, a03), (a10, a11, a12, a13),
               (a20, a21, a22, a23), (a30, a31, a32, a33)) =
     ((a00, a10, a20, a30), (a01, a11, a21, a31),
      (a02, a12, a22, a32), (a03, a13, a23, a33))"

fun mat_vec :: "mat4 \<Rightarrow> vec4 \<Rightarrow> vec4" where
  "mat_vec (r0, r1, r2, r3) v = (dot4 r0 v, dot4 r1 v, dot4 r2 v, dot4 r3 v)"

text \<open>
  Modelled from the spec: the product \<^verbatim>\<open>*\<close> of the matrix class of
  \<^verbatim>\<open>hyperboloid_utilities\<close>, which is missing; the specification says that
  composition is matrix multiplication. Entry \<open>(i, j)\<close> of the product is row \<open>i\<close> of the
  left factor times column \<open>j\<close> of the right factor.
\<close>

fun mat_mul :: "mat4 \<Rightarrow> mat4 \<Rightarrow> mat4" where
  "mat_mul (r0, r1, r2, r3) B =
     (let C = transpose4 B in (mat_vec C r0, mat_vec C r1, mat_vec C r2, mat_vec C r3))"

text \<open>The literal \<^verbatim>\<open>matrix([[1.0,0.0,0.0,0.0], ..., [0.0,0.0,0.0,1.0]])\<close> of the source.\<close>

definition identity4 :: mat4 where
  "identity4 = ((1, 0, 0, 0), (0, 1, 0, 0), (0, 0, 1, 0), (0, 0, 0, 1))"

text \<open>The Minkowski quadratic form of signature \<open>(-,+,+,+)\<close>.\<close>

fun Q :: "vec4 \<Rightarrow> real" where
  "Q (t, x, y, z) = - (t * t) + x * x + y * y + z * z"

definition lorentz :: "mat4 \<Rightarrow> bool" where
  "lorentz M \<longleftrightarrow> (\<forall>v. Q (mat_vec M v) = Q v)"

subsection \<open>The Lorentz operator library\<close>

text \<open>
  Modelled from the spec: \<^verbatim>\<open>O13_x_rotation\<close>, \<^verbatim>\<open>O13_y_rotation\<close> and
  \<^verbatim>\<open>O13_z_rotation\<close> of the missing module \<^verbatim>\<open>hyperboloid_utilities\<close>. The
  specification describes the block-diagonal matrix that rotates the two other spatial
  coordinates by the angle and fixes the time coordinate and the axis; it leaves the sign
  of the rotation open, which is chosen here once for each axis.
\<close>

definition O13_x_rotation :: "real \<Rightarrow> mat4" where
  "O13_x_rotation angle = (let c = cos angle; s = sin angle in
     ((1, 0, 0, 0), (0, 1, 0, 0), (0, 0, c, s), (0, 0, - s, c)))"

definition O13_y_rotation :: "real \<Rightarrow> mat4" where
  "O13_y_rotation angle = (let c = cos angle; s = sin angle in
     ((1, 0, 0, 0), (0, c, 0, - s), (0, 0, 1, 0), (0, s, 0, c)))"

definition O13_z_rotation :: "real \<Rightarrow> mat4" where
  "O13_z_rotation angle = (let c = cos angle; s = sin angle in
     ((1, 0, 0, 0), (0, c, s, 0), (0, - s, c, 0), (0, 0, 0, 1)))"

text \<open>
  Modelled from the spec: \<^verbatim>\<open>unit_3_vector_and_distance_to_O13_hyperbolic_translation\<close>
  of the missing module \<^verbatim>\<open>hyperboloid_utilities\<close>: the Lorentz boost along a
  direction by a hyperbolic distance, by the standard formula in \<open>cosh\<close> and \<open>sinh\<close> of
  the distance. The direction is not renormalised.
\<close>

definition unit_3_vector_and_distance_to_O13_hyperbolic_translation :: "vec3 \<Rightarrow> real \<Rightarrow> mat4" where
  "unit_3_vector_and_distance_to_O13_hyperbolic_translation v d =
     (case v of (n1, n2, n3) \<Rightarrow>
      let c = cosh d; s = sinh d in
      ((c, s * n1, s * n2, s * n3),
       (s * n1, 1 + (c - 1) * n1 * n1, (c - 1) * n1 * n2, (c - 1) * n1 * n3),
       (s * n2, (c - 1) * n2 * n1, 1 + (c - 1) * n2 * n2, (c - 1) * n2 * n3),
       (s * n3, (c - 1) * n3 * n1, (c - 1) * n3 * n2, 1 + (c - 1) * n3 * n3)))"

text \<open>
  Modelled from the spec: the method \<^verbatim>\<open>normalized\<close> of the vector class of the
  missing module: the vector divided by its Euclidean length.
\<close>

definition normalized :: "vec3 \<Rightarrow> vec3" where
  "normalized v =
     (case v of (x, y, z) \<Rightarrow>
      let n = sqrt (x * x + y * y + z * z) in (x / n, y / n, z / n))"

fun norm_sq3 :: "vec3 \<Rightarrow> real" where
  "norm_sq3 (x, y, z) = x * x + y * y + z * z"

subsection \<open>The key bindings\<close>

text \<open>
  The dictionary \<^verbatim>\<open>_key_movement_bindings\<close>: each key is bound to a function of
  the rotation amount and the translation amount.
\<close>

definition key_movement_bindings :: "string \<rightharpoonup> (real \<Rightarrow> real \<Rightarrow> mat4)" where
  "key_movement_bindings =
     [''a'' \<mapsto> (\<lambda>rot_amount trans_amount.
          unit_3_vector_and_distance_to_O13_hyperbolic_translation (- 1, 0, 0) trans_amount),
      ''d'' \<mapsto> (\<lambda>rot_amount trans_amount.
          unit_3_vector_and_distance_to_O13_hyperbolic_translation (1, 0, 0) trans_amount),
      ''c'' \<mapsto> (\<lambda>rot_amount trans_amount.
          unit_3_vector_and_distance_to_O13_hyperbolic_translation (0, - 1, 0) trans_amount),
      ''e'' \<mapsto> (\<lambda>rot_amount trans_amount.
          unit_3_vector_and_distance_to_O13_hyperbolic_translation (0, 1, 0) trans_amount),
      ''w'' \<mapsto> (\<lambda>rot_amount trans_amount.
          unit_3_vector_and_distance_to_O13_hyperbolic_translation (0, 0, - 1) trans_amount),
      ''s'' \<mapsto> (\<lambda>rot_amount trans_amount.
          unit_3_vector_and_distance_to_O13_hyperbolic_translation (0, 0, 1) trans_amount),
      ''Left'' \<mapsto> (\<lambda>rot_amount trans_amount. O13_y_rotation (- rot_amount)),
      ''Right'' \<mapsto> (\<lambda>rot_amount trans_amount. O13_y_rotation rot_amount),
      ''Up'' \<mapsto> (\<lambda>rot_amount trans_amount. O13_x_rotation (- rot_amount)),
      ''Down'' \<mapsto> (\<lambda>rot_amount trans_amount. O13_x_rotation rot_amount),
      ''x'' \<mapsto> (\<lambda>rot_amount trans_amount. O13_z_rotation (- rot_amount)),
      ''z'' \<mapsto> (\<lambda>rot_amount trans_amount. O13_z_rotation rot_amount)]"

subsection \<open>The navigation state\<close>

text \<open>
  The collaborator \<^verbatim>\<open>self.raytracing_data\<close>, known by its interface only. The
  operator argument of \<^verbatim>\<open>update_view_state\<close> is optional, as in the source, which
  calls it with and without an operator. The view state is an opaque type.
\<close>

record 'vs raytracing_data =
  initial_view_state :: 'vs
  update_view_state :: "'vs \<Rightarrow> mat4 option \<Rightarrow> 'vs"

text \<open>
  The fields of \<^verbatim>\<open>HyperboloidNavigation\<close>. \<open>None\<close> is Python's \<^verbatim>\<open>None\<close>, or
  for the three orbit matrices an attribute that has not been assigned yet. The set
  \<^verbatim>\<open>current_keys_pressed\<close> is the list of its elements in the order in which the
  set is iterated; the dictionary \<^verbatim>\<open>time_key_release_received\<close>, which is
  iterated too, is an association list in insertion order, and \<^verbatim>\<open>last_time\<close> a
  map. The two entries of \<^verbatim>\<open>navigation_dict\<close> are the fields
  \<open>translationVelocity\<close> and \<open>rotationVelocity\<close>. The attribute \<^verbatim>\<open>view\<close> belongs
  to the host widget. The last three fields record the effects on the host:
  \<open>redraws\<close> counts the calls of \<^verbatim>\<open>redraw_if_initialized\<close>, \<open>scheduled\<close> lists the
  delays of the pending \<^verbatim>\<open>after(delay, self.do_movement)\<close> callbacks, and
  \<open>printed\<close> is what \<^verbatim>\<open>print\<close> has written.
\<close>

record 'vs navigation =
  refresh_delay :: nat
  mouse_pos_when_pressed :: "(int \<times> int) option"
  view_state_when_pressed :: "'vs option"
  last_mouse_pos :: "(int \<times> int) option"
  current_keys_pressed :: "string list"
  time_key_release_received :: "(string \<times> real) list"
  last_time :: "string \<rightharpoonup> real"
  view_state :: "'vs option"
  translationVelocity :: real
  rotationVelocity :: real
  orbit_translation :: "mat4 option"
  orbit_inv_translation :: "mat4 option"
  orbit_rotation :: "mat4 option"
  view :: int
  redraws :: nat
  scheduled :: "nat list"
  printed :: "'vs option list"

text \<open>
  What a handler can raise. \<open>TypeError\<close> stands for the failure of the collaborator
  when it is handed \<^verbatim>\<open>None\<close> in place of a view state. A handler that raises
  keeps the assignments it has made so far, so the error comes with the state reached.
\<close>

datatype error = KeyError | ZeroDivisionError | ValueError | AttributeError | TypeError

type_synonym 'vs outcome = "(error \<times> 'vs navigation) + 'vs navigation"

text \<open>\<^verbatim>\<open>__init__\<close>; the argument \<open>v0\<close> is the host's attribute \<^verbatim>\<open>view\<close>.\<close>

definition init :: "'vs raytracing_data \<Rightarrow> int \<Rightarrow> 'vs navigation" where
  "init rd v0 =
     \<lparr>refresh_delay = 10,
      mouse_pos_when_pressed = None,
      view_state_when_pressed = None,
      last_mouse_pos = None,
      current_keys_pressed = [],
      time_key_release_received = [],
      last_time = Map.empty,
      view_state = Some (initial_view_state rd),
      translationVelocity = 4 / 10,
      rotationVelocity = 4 / 10,
      orbit_translation = None,
      orbit_inv_translation = None,
      orbit_rotation = None,
      view = v0,
      redraws = 0,
      scheduled = [],
      printed = []\<rparr>"

definition reset_view_state :: "'vs raytracing_data \<Rightarrow> 'vs navigation \<Rightarrow> 'vs navigation" where
  "reset_view_state rd s = s\<lparr>view_state := Some (initial_view_state rd)\<rparr>"

definition fix_view_state :: "'vs raytracing_data \<Rightarrow> 'vs navigation \<Rightarrow> 'vs outcome" where
  "fix_view_state rd s =
     (case view_state s of
        None \<Rightarrow> Inl (TypeError, s)
      | Some v \<Rightarrow> Inr (s\<lparr>view_state := Some (update_view_state rd v None)\<rparr>))"

text \<open>\<^verbatim>\<open>tkEnter\<close> only moves the keyboard focus of the host widget.\<close>

definition tkEnter :: "'vs navigation \<Rightarrow> 'vs navigation" where
  "tkEnter s = s"

subsection \<open>The key-motion integrator\<close>

text \<open>
  The first loop of \<^verbatim>\<open>do_movement\<close>, over the items of
  \<^verbatim>\<open>time_key_release_received\<close>: a key released more than 5 ms ago leaves the
  set of pressed keys.
\<close>

fun evict :: "real \<Rightarrow> (string \<times> real) list \<Rightarrow> string list \<Rightarrow> string list" where
  "evict current_time [] keys = keys"
| "evict current_time ((k, t) # items) keys =
     evict current_time items
       (if current_time - t > 5 / 1000
        then (if k \<in> set keys then remove1 k keys else keys)
        else keys)"

text \<open>
  The second loop of \<^verbatim>\<open>do_movement\<close>, over the pressed keys. It threads
  \<^verbatim>\<open>last_time\<close>, the matrix \<^verbatim>\<open>m\<close> and the flag \<^verbatim>\<open>a\<close>. The right-hand
  side of the tuple assignment is evaluated first, so a key without a last time raises
  \<^verbatim>\<open>KeyError\<close> before anything is assigned for it.
\<close>

fun integrate ::
  "real \<Rightarrow> real \<Rightarrow> real \<Rightarrow> string list \<Rightarrow> (string \<rightharpoonup> real) \<times> mat4 \<times> bool \<Rightarrow>
   (error \<times> (string \<rightharpoonup> real)) + ((string \<rightharpoonup> real) \<times> mat4 \<times> bool)" where
  "integrate current_time rv tv [] (lt, m, a) = Inr (lt, m, a)"
| "integrate current_time rv tv (k # ks) (lt, m, a) =
     (case key_movement_bindings k of
        None \<Rightarrow> integrate current_time rv tv ks (lt, m, a)
      | Some f \<Rightarrow>
          (case lt k of
             None \<Rightarrow> Inl (KeyError, lt)
           | Some t0 \<Rightarrow>
               (let diff_time = current_time - t0 in
                integrate current_time rv tv ks
                  (lt(k \<mapsto> current_time), mat_mul m (f (diff_time * rv) (diff_time * tv)), True))))"

definition do_movement :: "'vs raytracing_data \<Rightarrow> real \<Rightarrow> 'vs navigation \<Rightarrow> 'vs outcome" where
  "do_movement rd current_time s =
     (let s1 = s\<lparr>current_keys_pressed :=
                  evict current_time (time_key_release_received s) (current_keys_pressed s)\<rparr>
      in case integrate current_time (rotationVelocity s1) (translationVelocity s1)
                (current_keys_pressed s1) (last_time s1, identity4, False) of
           Inl (e, lt) \<Rightarrow> Inl (e, s1\<lparr>last_time := lt\<rparr>)
         | Inr (lt, m, a) \<Rightarrow>
             (let s2 = s1\<lparr>last_time := lt\<rparr> in
              if \<not> a then Inr s2
              else (case view_state s2 of
                      None \<Rightarrow> Inl (TypeError, s2)
                    | Some v \<Rightarrow>
                        Inr (s2\<lparr>view_state := Some (update_view_state rd v (Some m)),
                                redraws := Suc (redraws s2),
                                scheduled := scheduled s2 @ [refresh_delay s2]\<rparr>))))"

definition tkKeyRelease :: "real \<Rightarrow> string \<Rightarrow> 'vs navigation \<Rightarrow> 'vs navigation" where
  "tkKeyRelease now keysym s =
     s\<lparr>time_key_release_received := AList.update keysym now (time_key_release_received s)\<rparr>"

definition tkKeyPress :: "real \<Rightarrow> string \<Rightarrow> 'vs navigation \<Rightarrow> 'vs navigation" where
  "tkKeyPress now keysym s =
     (let s1 =
        (if keysym \<in> dom key_movement_bindings then
           (let s' = (if keysym \<in> fst ` set (time_key_release_received s)
                      then s\<lparr>time_key_release_received :=
                               AList.delete keysym (time_key_release_received s)\<rparr>
                      else s)
            in if keysym \<notin> set (current_keys_pressed s')
               then s'\<lparr>last_time := (last_time s')(keysym \<mapsto> now),
                       current_keys_pressed := current_keys_pressed s' @ [keysym],
                       scheduled := scheduled s' @ [1]\<rparr>
               else s')
         else s);
        s2 = (if keysym = ''u'' then s1\<lparr>printed := printed s1 @ [view_state s1]\<rparr> else s1)
      in if keysym = ''v''
         then s2\<lparr>view := (view s2 + 1) mod 3, redraws := Suc (redraws s2)\<rparr>
         else s2)"

subsection \<open>The pointer gestures\<close>

definition tkButton1 :: "int \<times> int \<Rightarrow> 'vs navigation \<Rightarrow> 'vs navigation" where
  "tkButton1 ev s =
     s\<lparr>mouse_pos_when_pressed := Some ev, view_state_when_pressed := view_state s\<rparr>"

text \<open>
  \<^verbatim>\<open>tkAltButton1\<close>. The arguments \<open>fov\<close> and \<open>reading\<close> are what the host returns
  for \<^verbatim>\<open>self.ui_uniform_dict['fov'][1]\<close> and \<^verbatim>\<open>self.read_depth_value(x, y)\<close>.
  The division by the width, the division by the tangent and \<^verbatim>\<open>math.atanh\<close> outside
  the open interval from -1 to 1 raise, in this order, after the first two assignments.
  Over the reals the tangent is taken as HOL defines it, which is 0 where the cosine
  vanishes (a field of view of 180 degrees), so the model raises there as well, where
  floating point returns a very large number; the properties below assume that the
  tangent is not 0. The call \<^verbatim>\<open>self.make_current()\<close> only selects the drawing
  context of the host.
\<close>

definition tkAltButton1 ::
  "real \<Rightarrow> real \<times> real \<times> real \<Rightarrow> int \<times> int \<Rightarrow> 'vs navigation \<Rightarrow> 'vs outcome" where
  "tkAltButton1 fov reading ev s =
     (case ev of (x, y) \<Rightarrow> case reading of (depth, width, height) \<Rightarrow>
      (let s1 = s\<lparr>last_mouse_pos := Some (x, y), view_state_when_pressed := view_state s\<rparr>
       in if width = 0 then Inl (ZeroDivisionError, s1)
          else
            (let frag0 = (real_of_int x - 0.5 * width) / width;
                 frag1 = ((height - real_of_int y) - 0.5 * height) / width;
                 t = tan (fov / 360 * pi)
             in if t = 0 then Inl (ZeroDivisionError, s1)
                else
                  (let dir = normalized (frag0, frag1, - 0.5 / t)
                   in if \<not> (- 1 < depth \<and> depth < 1) then Inl (ValueError, s1)
                      else Inr (s1\<lparr>orbit_translation :=
                                     Some (unit_3_vector_and_distance_to_O13_hyperbolic_translation
                                             dir (artanh depth)),
                                   orbit_inv_translation :=
                                     Some (unit_3_vector_and_distance_to_O13_hyperbolic_translation
                                             dir (artanh (- depth))),
                                   orbit_rotation := Some identity4\<rparr>)))))"

definition tkAltButtonMotion1 ::
  "'vs raytracing_data \<Rightarrow> int \<times> int \<Rightarrow> 'vs navigation \<Rightarrow> 'vs outcome" where
  "tkAltButtonMotion1 rd ev s =
     (case last_mouse_pos s of
        None \<Rightarrow> Inr s
      | Some (lx, ly) \<Rightarrow>
          (case ev of (x, y) \<Rightarrow>
           (let delta_x = x - lx;
                delta_y = y - ly;
                m = mat_mul (O13_y_rotation (real_of_int delta_x * 0.01))
                            (O13_x_rotation (real_of_int delta_y * 0.01))
            in case orbit_rotation s of
                 None \<Rightarrow> Inl (AttributeError, s)
               | Some r \<Rightarrow>
                   (let s1 = s\<lparr>orbit_rotation := Some (mat_mul r m)\<rparr>
                    in case orbit_translation s1 of
                         None \<Rightarrow> Inl (AttributeError, s1)
                       | Some fwd \<Rightarrow>
                           (case orbit_inv_translation s1 of
                              None \<Rightarrow> Inl (AttributeError, s1)
                            | Some bwd \<Rightarrow>
                                (case view_state_when_pressed s1 of
                                   None \<Rightarrow> Inl (TypeError, s1)
                                 | Some v \<Rightarrow>
                                     Inr (s1\<lparr>view_state :=
                                               Some (update_view_state rd v
                                                 (Some (mat_mul (mat_mul fwd (mat_mul r m)) bwd))),
                                             last_mouse_pos := Some (x, y),
                                             redraws := Suc (redraws s1)\<rparr>)))))))"

definition tkButtonMotion1 ::
  "'vs raytracing_data \<Rightarrow> int \<times> int \<Rightarrow> 'vs navigation \<Rightarrow> 'vs outcome" where
  "tkButtonMotion1 rd ev s =
     (case mouse_pos_when_pressed s of
        None \<Rightarrow> Inr s
      | Some (px, py) \<Rightarrow>
          (case ev of (x, y) \<Rightarrow>
           (let delta_x = x - px;
                delta_y = y - py;
                amt = sqrt (real_of_int (delta_x ^ 2 + delta_y ^ 2))
            in if amt = 0
               then Inr (s\<lparr>view_state := view_state_when_pressed s,
                           redraws := Suc (redraws s)\<rparr>)
               else
                 (let m = unit_3_vector_and_distance_to_O13_hyperbolic_translation
                            (- real_of_int delta_x / amt, real_of_int delta_y / amt, 0)
                            (amt * 0.01)
                  in case view_state_when_pressed s of
                       None \<Rightarrow> Inl (TypeError, s)
                     | Some v \<Rightarrow>
                         Inr (s\<lparr>view_state := Some (update_view_state rd v (Some m)),
                                 redraws := Suc (redraws s)\<rparr>)))))"

definition tkButtonRelease1 :: "'vs navigation \<Rightarrow> 'vs navigation" where
  "tkButtonRelease1 s = s\<lparr>mouse_pos_when_pressed := None\<rparr>"

definition tkCtrlButtonMotion1 ::
  "'vs raytracing_data \<Rightarrow> int \<times> int \<Rightarrow> 'vs navigation \<Rightarrow> 'vs outcome" where
  "tkCtrlButtonMotion1 rd ev s =
     (case mouse_pos_when_pressed s of
        None \<Rightarrow> Inr s
      | Some (px, py) \<Rightarrow>
          (case ev of (x, y) \<Rightarrow>
           (let delta_x = x - px;
                delta_y = y - py;
                m = mat_mul (O13_y_rotation (- real_of_int delta_x * 0.01))
                            (O13_x_rotation (- real_of_int delta_y * 0.01))
            in case view_state s of
                 None \<Rightarrow> Inl (TypeError, s)
               | Some v \<Rightarrow>
                   Inr (s\<lparr>view_state := Some (update_view_state rd v (Some m)),
                           mouse_pos_when_pressed := Some (x, y),
                           redraws := Suc (redraws s)\<rparr>))))"

subsection \<open>The event loop\<close>

text \<open>
  The events that the bindings of \<^verbatim>\<open>__init__\<close> route to the handlers, with the
  clock reading where the handler takes one. \<open>Timer\<close> is the host firing the oldest
  pending \<^verbatim>\<open>after\<close> callback, which is always \<^verbatim>\<open>do_movement\<close>. The plain and
  the Control button press are the same handler, and so are the two releases.
\<close>

datatype event =
    Enter
  | KeyPress real string
  | KeyRelease real string
  | Timer real
  | Button1 int int
  | ButtonRelease1
  | B1Motion int int
  | CtrlB1Motion int int
  | AltButton1 real "real \<times> real \<times> real" int int
  | AltB1Motion int int

fun step :: "'vs raytracing_data \<Rightarrow> event \<Rightarrow> 'vs navigation \<Rightarrow> 'vs outcome" where
  "step rd Enter s = Inr (tkEnter s)"
| "step rd (KeyPress now k) s = Inr (tkKeyPress now k s)"
| "step rd (KeyRelease now k) s = Inr (tkKeyRelease now k s)"
| "step rd (Timer now) s =
     (case scheduled s of
        [] \<Rightarrow> Inr s
      | d # rest \<Rightarrow> do_movement rd now (s\<lparr>scheduled := rest\<rparr>))"
| "step rd (Button1 x y) s = Inr (tkButton1 (x, y) s)"
| "step rd ButtonRelease1 s = Inr (tkButtonRelease1 s)"
| "step rd (B1Motion x y) s = tkButtonMotion1 rd (x, y) s"
| "step rd (CtrlB1Motion x y) s = tkCtrlButtonMotion1 rd (x, y) s"
| "step rd (AltButton1 fov reading x y) s = tkAltButton1 fov reading (x, y) s"
| "step rd (AltB1Motion x y) s = tkAltButtonMotion1 rd (x, y) s"

text \<open>Events are delivered one after the other; an exception ends the run.\<close>

fun run :: "'vs raytracing_data \<Rightarrow> event list \<Rightarrow> 'vs navigation \<Rightarrow> 'vs outcome" where
  "run rd [] s = Inr s"
| "run rd (e # es) s =
     (case step rd e s of Inl err \<Rightarrow> Inl err | Inr s' \<Rightarrow> run rd es s')"

text \<open>The state a handler leaves behind, whether it returned or raised.\<close>

definition outcome_state :: "'vs outcome \<Rightarrow> 'vs navigation" where
  "outcome_state r = (case r of Inl (e, s) \<Rightarrow> s | Inr s \<Rightarrow> s)"

text \<open>
  A stand-in for the collaborator, used where a property is evaluated on a concrete run:
  its view state is the product of the operators applied so far, and re-normalising
  without an operator changes nothing.
\<close>

definition matrix_view :: "mat4 raytracing_data" where
  "matrix_view =
     \<lparr>initial_view_state = identity4,
      update_view_state = (\<lambda>v operator. case operator of None \<Rightarrow> v | Some m \<Rightarrow> mat_mul v m)\<rparr>"

text \<open>
  The rotation accumulated by the drag samples \<open>pts\<close> of an orbit gesture, from the
  accumulated rotation \<open>R\<close> and the previous sample.
\<close>

fun orbit_accumulated :: "mat4 \<Rightarrow> int \<times> int \<Rightarrow> (int \<times> int) list \<Rightarrow> mat4" where
  "orbit_accumulated R p [] = R"
| "orbit_accumulated R (lx, ly) ((a, b) # pts) =
     orbit_accumulated
       (mat_mul R (mat_mul (O13_y_rotation (real_of_int (a - lx) * 0.01))
                           (O13_x_rotation (real_of_int (b - ly) * 0.01))))
       (a, b) pts"

text \<open>
  The operator that a tick at time \<open>now\<close> builds for the key \<open>k\<close>, from the time
  \<open>lt k\<close> at which the key was last integrated.
\<close>

definition key_operator :: "real \<Rightarrow> real \<Rightarrow> real \<Rightarrow> (string \<rightharpoonup> real) \<Rightarrow> string \<Rightarrow> mat4" where
  "key_operator now rv tv lt k =
     (case key_movement_bindings k of
        None \<Rightarrow> identity4
      | Some f \<Rightarrow>
          (case lt k of
             None \<Rightarrow> identity4
           | Some t0 \<Rightarrow> f ((now - t0) * rv) ((now - t0) * tv)))"

text \<open>
  The pressed keys in the state in which the handlers keep them: no key twice, every key
  bound and with a time at which it was last integrated.
\<close>

definition keys_ready :: "string list \<Rightarrow> (string \<rightharpoonup> real) \<Rightarrow> bool" where
  "keys_ready ks lt \<longleftrightarrow>
     distinct ks \<and> (\<forall>k \<in> set ks. k \<in> dom key_movement_bindings \<and> k \<in> dom lt)"

text \<open>
  A collaborator that records the operators it is handed: its view state is the list
  of the operators applied since the initial view state.
\<close>

definition recorder :: "mat4 list raytracing_data" where
  "recorder =
     \<lparr>initial_view_state = [],
      update_view_state = (\<lambda>v operator. case operator of None \<Rightarrow> v | Some m \<Rightarrow> v @ [m])\<rparr>"

text \<open>
  Every operator recorded in the view state or in the state captured at a press, and
  every orbit matrix that has been assigned, preserves the Minkowski form.
\<close>

definition recorded_lorentz :: "mat4 list navigation \<Rightarrow> bool" where
  "recorded_lorentz s \<longleftrightarrow>
     list_all lorentz (case view_state s of None \<Rightarrow> [] | Some ms \<Rightarrow> ms)
     \<and> list_all lorentz (case view_state_when_pressed s of None \<Rightarrow> [] | Some ms \<Rightarrow> ms)
     \<and> list_all lorentz (case orbit_translation s of None \<Rightarrow> [] | Some M \<Rightarrow> [M])
     \<and> list_all lorentz (case orbit_inv_translation s of None \<Rightarrow> [] | Some M \<Rightarrow> [M])
     \<and> list_all lorentz (case orbit_rotation s of None \<Rightarrow> [] | Some M \<Rightarrow> [M])"

section \<open>Properties\<close>

subsection \<open>The bound keys\<close>

lemma dom_key_movement_bindings:
  "dom key_movement_bindings =
     {''z'', ''x'', ''Down'', ''Up'', ''Right'', ''Left'', ''s'', ''w'', ''e'', ''c'', ''d'', ''a''}"
  unfolding key_movement_bindings_def
  by (simp only: dom_fun_upd dom_empty option.simps if_False)

lemma bound_not_u_v: "k \<in> dom key_movement_bindings \<Longrightarrow> k \<noteq> ''u'' \<and> k \<noteq> ''v''"
  unfolding dom_key_movement_bindings by (simp only: insert_iff empty_iff) fastforce

lemma a_bound: "''a'' \<in> dom key_movement_bindings"
  unfolding dom_key_movement_bindings by simp

subsection \<open>Pressing a key that is already held\<close>

text \<open>
  C9. A key-press event for a movement-bound key that is already in the set of pressed
  keys deletes the pending release record of that key and changes nothing else: the
  last-integrated time, the set of pressed keys, the scheduled callbacks and the view
  state stay as they are.
\<close>

theorem tkKeyPress_held_key:
  assumes "keysym \<in> dom key_movement_bindings"
      and "keysym \<in> set (current_keys_pressed s)"
  shows "tkKeyPress now keysym s =
           s\<lparr>time_key_release_received := AList.delete keysym (time_key_release_received s)\<rparr>
         \<and> map_of (time_key_release_received (tkKeyPress now keysym s)) keysym = None
         \<and> last_time (tkKeyPress now keysym s) = last_time s
         \<and> current_keys_pressed (tkKeyPress now keysym s) = current_keys_pressed s
         \<and> scheduled (tkKeyPress now keysym s) = scheduled s
         \<and> view_state (tkKeyPress now keysym s) = view_state s"
proof -
  from assms(1) have nu: "keysym \<noteq> ''u''" "keysym \<noteq> ''v''"
    using bound_not_u_v by auto
  have e: "tkKeyPress now keysym s =
           s\<lparr>time_key_release_received := AList.delete keysym (time_key_release_received s)\<rparr>"
    using assms nu by (simp add: tkKeyPress_def Let_def)
  show ?thesis
    by (simp add: e AList.delete_conv')
qed

text \<open>The key \<open>a\<close>, pressed at time 0, released at time 1 and pressed again at time 2.\<close>

theorem tkKeyPress_held_key_witness:
  "''a'' \<in> dom key_movement_bindings
   \<and> ''a'' \<in> set (current_keys_pressed
        (tkKeyRelease 1 ''a'' (tkKeyPress 0 ''a'' (init matrix_view 0))))
   \<and> tkKeyPress 2 ''a'' (tkKeyRelease 1 ''a'' (tkKeyPress 0 ''a'' (init matrix_view 0))) =
       (tkKeyRelease 1 ''a'' (tkKeyPress 0 ''a'' (init matrix_view 0)))
         \<lparr>time_key_release_received :=
            AList.delete ''a'' (time_key_release_received
              (tkKeyRelease 1 ''a'' (tkKeyPress 0 ''a'' (init matrix_view 0))))\<rparr>"
proof -
  have h: "''a'' \<in> set (current_keys_pressed
        (tkKeyRelease 1 ''a'' (tkKeyPress 0 ''a'' (init matrix_view 0))))"
    using a_bound by (simp add: tkKeyRelease_def tkKeyPress_def init_def Let_def)
  show ?thesis
    using h a_bound tkKeyPress_held_key [OF a_bound h, of 2] by simp
qed

subsection \<open>Release records\<close>

lemma do_movement_releases:
  "time_key_release_received (outcome_state (do_movement rd now s)) = time_key_release_received s"
  by (simp add: do_movement_def outcome_state_def Let_def split: sum.splits prod.splits option.splits)

lemma tkButtonMotion1_releases:
  "time_key_release_received (outcome_state (tkButtonMotion1 rd ev s)) = time_key_release_received s"
  by (simp add: tkButtonMotion1_def outcome_state_def Let_def split: sum.splits prod.splits option.splits)

lemma tkCtrlButtonMotion1_releases:
  "time_key_release_received (outcome_state (tkCtrlButtonMotion1 rd ev s)) = time_key_release_received s"
  by (simp add: tkCtrlButtonMotion1_def outcome_state_def Let_def split: sum.splits prod.splits option.splits)

lemma tkAltButton1_releases:
  "time_key_release_received (outcome_state (tkAltButton1 fov reading ev s)) = time_key_release_received s"
  by (simp add: tkAltButton1_def outcome_state_def Let_def split: sum.splits prod.splits option.splits)

lemma tkAltButtonMotion1_releases:
  "time_key_release_received (outcome_state (tkAltButtonMotion1 rd ev s)) = time_key_release_received s"
  by (simp add: tkAltButtonMotion1_def outcome_state_def Let_def split: sum.splits prod.splits option.splits)

lemma tkKeyPress_releases:
  "time_key_release_received (tkKeyPress now k s) =
     (if k \<in> dom key_movement_bindings then AList.delete k (time_key_release_received s)
      else time_key_release_received s)"
  by (simp add: tkKeyPress_def Let_def)

lemma outcome_state_Inr [simp]: "outcome_state (Inr s) = s"
  by (simp add: outcome_state_def)

lemma step_releases:
  "time_key_release_received (outcome_state (step rd e s)) =
     (case e of
        KeyPress now k \<Rightarrow>
          (if k \<in> dom key_movement_bindings then AList.delete k (time_key_release_received s)
           else time_key_release_received s)
      | KeyRelease now k \<Rightarrow> AList.update k now (time_key_release_received s)
      | _ \<Rightarrow> time_key_release_received s)"
proof (cases e)
  case (Timer now)
  show ?thesis
  proof (cases "scheduled s")
    case Nil
    then show ?thesis using Timer by simp
  next
    case (Cons d rest)
    then show ?thesis using Timer do_movement_releases [of rd now "s\<lparr>scheduled := rest\<rparr>"] by simp
  qed
qed (simp_all add: tkEnter_def tkKeyPress_releases tkKeyRelease_def tkButton1_def
       tkButtonRelease1_def tkButtonMotion1_releases tkCtrlButtonMotion1_releases
       tkAltButton1_releases tkAltButtonMotion1_releases)

text \<open>
  C10. The key-release handler records the release time of every key, bound or not.
  The tick never changes the release records, also when it evicts a key from the set
  of pressed keys. Through any event, the record of a key keeps its time unless the
  event is a press of that key and the key is movement-bound (the record is deleted) or
  a new release of that key (the time is overwritten), and a key that has a record
  keeps one through every event other than a press of that bound key.
\<close>

theorem release_records_persist:
  "map_of (time_key_release_received (tkKeyRelease now k s)) k = Some now
   \<and> time_key_release_received (outcome_state (do_movement rd now s)) = time_key_release_received s
   \<and> (map_of (time_key_release_received s) k = Some t
        \<and> (\<forall>t'. e \<noteq> KeyPress t' k \<or> k \<notin> dom key_movement_bindings)
        \<and> (\<forall>t'. e \<noteq> KeyRelease t' k)
      \<longrightarrow> map_of (time_key_release_received (outcome_state (step rd e s))) k = Some t)
   \<and> (k \<in> fst ` set (time_key_release_received s)
        \<and> (\<forall>t'. e \<noteq> KeyPress t' k \<or> k \<notin> dom key_movement_bindings)
      \<longrightarrow> k \<in> fst ` set (time_key_release_received (outcome_state (step rd e s))))"
proof (intro conjI impI)
  show "map_of (time_key_release_received (tkKeyRelease now k s)) k = Some now"
    by (simp add: tkKeyRelease_def AList.update_conv')
  show "time_key_release_received (outcome_state (do_movement rd now s)) = time_key_release_received s"
    by (rule do_movement_releases)
next
  assume a: "map_of (time_key_release_received s) k = Some t
        \<and> (\<forall>t'. e \<noteq> KeyPress t' k \<or> k \<notin> dom key_movement_bindings)
        \<and> (\<forall>t'. e \<noteq> KeyRelease t' k)"
  then show "map_of (time_key_release_received (outcome_state (step rd e s))) k = Some t"
    unfolding step_releases
    by (cases e) (auto simp: AList.update_conv' AList.delete_conv')
next
  assume a: "k \<in> fst ` set (time_key_release_received s)
        \<and> (\<forall>t'. e \<noteq> KeyPress t' k \<or> k \<notin> dom key_movement_bindings)"
  have d: "k \<noteq> k' \<Longrightarrow> k \<in> fst ` set (AList.delete k' (time_key_release_received s))" for k'
    using a by (metis AList.map_of_delete map_of_eq_None_iff)
  show "k \<in> fst ` set (time_key_release_received (outcome_state (step rd e s)))"
  proof (cases e)
    case (KeyPress t' k')
    show ?thesis
    proof (cases "k' \<in> dom key_movement_bindings")
      case True
      with a KeyPress have "k \<noteq> k'" by blast
      with True KeyPress d show ?thesis by (simp add: tkKeyPress_releases)
    next
      case False
      with a KeyPress show ?thesis by (simp add: tkKeyPress_releases)
    qed
  next
    case (KeyRelease t' k')
    with a show ?thesis by (simp add: tkKeyRelease_def AList.dom_update)
  qed (use a step_releases [of rd e s] in \<open>simp_all del: step.simps\<close>)
qed

text \<open>
  The key \<open>a\<close> is pressed at time 0 and released at time 1; the tick at time 2
  evicts it from the set of pressed keys, and its release record is still there.
\<close>

theorem release_records_persist_witness:
  "map_of (time_key_release_received
             (tkKeyRelease 1 ''a'' (tkKeyPress 0 ''a'' (init matrix_view 0)))) ''a'' = Some 1
   \<and> map_of (time_key_release_received (outcome_state (step matrix_view (Timer 2)
        (tkKeyRelease 1 ''a'' (tkKeyPress 0 ''a'' (init matrix_view 0)))))) ''a'' = Some 1
   \<and> current_keys_pressed (outcome_state (step matrix_view (Timer 2)
        (tkKeyRelease 1 ''a'' (tkKeyPress 0 ''a'' (init matrix_view 0))))) = []"
proof -
  let ?s = "tkKeyRelease 1 ''a'' (tkKeyPress 0 ''a'' (init matrix_view 0))"
  have h1: "map_of (time_key_release_received ?s) ''a'' = Some 1"
    by (simp add: tkKeyRelease_def AList.update_conv')
  have h2: "\<forall>t'. Timer 2 \<noteq> KeyPress t' ''a'' \<or> ''a'' \<notin> dom key_movement_bindings" by simp
  have h3: "\<forall>t'. Timer 2 \<noteq> KeyRelease t' ''a''" by simp
  have k: "current_keys_pressed ?s = [''a'']" "time_key_release_received ?s = [(''a'', 1)]"
     "scheduled ?s = [1]"
    using a_bound by (simp_all add: tkKeyRelease_def tkKeyPress_def init_def Let_def)
  have e: "current_keys_pressed (outcome_state (step matrix_view (Timer 2) ?s)) = []"
    by (simp add: k do_movement_def Let_def)
  from release_records_persist [of 1 "''a''" ?s matrix_view 1 "Timer 2"] h1 h2 h3 e
  show ?thesis by blast
qed

subsection \<open>The free gesture\<close>

lemma amt_zero_iff:
  "sqrt (real_of_int ((x - px) ^ 2 + (y - py) ^ 2)) = 0 \<longleftrightarrow> x = px \<and> y = py"
proof -
  have "sqrt (real_of_int ((x - px) ^ 2 + (y - py) ^ 2)) = 0 \<longleftrightarrow> (x - px) ^ 2 + (y - py) ^ 2 = 0"
    by simp
  also have "\<dots> \<longleftrightarrow> x - px = 0 \<and> y - py = 0"
    by (rule sum_power2_eq_zero_iff)
  finally show ?thesis by simp
qed

text \<open>
  C7. A drag of the free gesture at the anchor position takes the branch that builds no
  operator and does not call the collaborator: the handler returns, and the view state
  is the one captured at the press.
\<close>

theorem free_drag_zero_delta:
  "(mouse_pos_when_pressed s = Some (x, y) \<longrightarrow>
      tkButtonMotion1 rd (x, y) s =
        Inr (s\<lparr>view_state := view_state_when_pressed s, redraws := Suc (redraws s)\<rparr>))
   \<and> tkButtonMotion1 rd (x, y) (tkButton1 (x, y) s) =
        Inr ((tkButton1 (x, y) s)\<lparr>view_state := view_state s, redraws := Suc (redraws s)\<rparr>)
   \<and> view_state (outcome_state (tkButtonMotion1 rd (x, y) (tkButton1 (x, y) s))) = view_state s"
  by (simp add: tkButtonMotion1_def tkButton1_def Let_def outcome_state_def)

text \<open>The press at (100, 100) followed by a drag to (100, 100).\<close>

theorem free_drag_zero_delta_witness:
  "mouse_pos_when_pressed (tkButton1 (100, 100) (init matrix_view 0)) = Some (100, 100)
   \<and> tkButtonMotion1 matrix_view (100, 100) (tkButton1 (100, 100) (init matrix_view 0)) =
       Inr ((tkButton1 (100, 100) (init matrix_view 0))
              \<lparr>view_state := view_state_when_pressed (tkButton1 (100, 100) (init matrix_view 0)),
               redraws := Suc (redraws (tkButton1 (100, 100) (init matrix_view 0)))\<rparr>)"
proof -
  have h: "mouse_pos_when_pressed (tkButton1 (100, 100) (init matrix_view 0)) = Some (100, 100)"
    by (simp add: tkButton1_def)
  from free_drag_zero_delta [of "tkButton1 (100, 100) (init matrix_view 0)" 100 100 matrix_view] h
  show ?thesis by blast
qed

text \<open>
  C6. A drag of the free gesture away from the anchor position builds the translation
  whose direction is the normalised delta with the horizontal component negated and
  whose distance is the length of the delta times 0.01, and sets the view state to the
  update of the state captured at the press by this operator. The anchor is not moved,
  so delivering the same position again gives the same view state.
\<close>

theorem free_drag_from_anchor:
  assumes "mouse_pos_when_pressed s = Some (px, py)"
      and "view_state_when_pressed s = Some v0"
      and "(x, y) \<noteq> (px, py)"
  shows "tkButtonMotion1 rd (x, y) s =
           Inr (s\<lparr>view_state :=
                    Some (update_view_state rd v0
                      (Some (unit_3_vector_and_distance_to_O13_hyperbolic_translation
                         (- real_of_int (x - px) / sqrt (real_of_int ((x - px) ^ 2 + (y - py) ^ 2)),
                          real_of_int (y - py) / sqrt (real_of_int ((x - px) ^ 2 + (y - py) ^ 2)),
                          0)
                         (sqrt (real_of_int ((x - px) ^ 2 + (y - py) ^ 2)) * 0.01)))),
                  redraws := Suc (redraws s)\<rparr>)
         \<and> view_state (outcome_state (run rd [B1Motion x y, B1Motion x y] s)) =
             view_state (outcome_state (run rd [B1Motion x y] s))
         \<and> (\<exists>s'. run rd [B1Motion x y, B1Motion x y] s = Inr s')"
proof -
  define M where "M = unit_3_vector_and_distance_to_O13_hyperbolic_translation
                         (- real_of_int (x - px) / sqrt (real_of_int ((x - px) ^ 2 + (y - py) ^ 2)),
                          real_of_int (y - py) / sqrt (real_of_int ((x - px) ^ 2 + (y - py) ^ 2)),
                          0)
                         (sqrt (real_of_int ((x - px) ^ 2 + (y - py) ^ 2)) * 0.01)"
  define s1 where "s1 = s\<lparr>view_state := Some (update_view_state rd v0 (Some M)),
                          redraws := Suc (redraws s)\<rparr>"
  define s2 where "s2 = s1\<lparr>redraws := Suc (redraws s1)\<rparr>"
  have nz: "sqrt (real_of_int ((x - px) ^ 2 + (y - py) ^ 2)) \<noteq> 0"
    using assms(3) amt_zero_iff [of x px y py] by simp
  have one: "tkButtonMotion1 rd (x, y) s = Inr s1"
    unfolding s1_def M_def tkButtonMotion1_def Let_def
    using assms(1,2) nz by (simp only: option.case prod.case if_False)
  have "mouse_pos_when_pressed s1 = Some (px, py)" "view_state_when_pressed s1 = Some v0"
    using assms(1,2) by (simp_all add: s1_def)
  then have two: "tkButtonMotion1 rd (x, y) s1 = Inr s2"
    unfolding s2_def M_def tkButtonMotion1_def Let_def
    using nz by (simp add: s1_def M_def del: real_sqrt_eq_zero_cancel_iff)
  have r1: "run rd [B1Motion x y] s = Inr s1"
    by (simp only: run.simps step.simps one sum.case)
  have r2: "run rd [B1Motion x y, B1Motion x y] s = Inr s2"
    by (simp only: run.simps step.simps one two sum.case)
  have v: "view_state s2 = view_state s1" by (simp add: s2_def)
  show ?thesis
    unfolding r1 r2 one using v by (simp add: outcome_state_def s1_def M_def)
qed

text \<open>The press at (100, 100) followed by drags to (103, 104): the delta has length 5.\<close>

theorem free_drag_from_anchor_witness:
  "mouse_pos_when_pressed (tkButton1 (100, 100) (init matrix_view 0)) = Some (100, 100)
   \<and> view_state_when_pressed (tkButton1 (100, 100) (init matrix_view 0)) = Some identity4
   \<and> (103, 104) \<noteq> (100 :: int, 100 :: int)
   \<and> view_state (outcome_state (run matrix_view [B1Motion 103 104, B1Motion 103 104]
        (tkButton1 (100, 100) (init matrix_view 0)))) =
       view_state (outcome_state (run matrix_view [B1Motion 103 104]
        (tkButton1 (100, 100) (init matrix_view 0))))"
proof -
  have h1: "mouse_pos_when_pressed (tkButton1 (100, 100) (init matrix_view 0)) = Some (100, 100)"
    by (simp add: tkButton1_def)
  have h2: "view_state_when_pressed (tkButton1 (100, 100) (init matrix_view 0)) = Some identity4"
    by (simp add: tkButton1_def init_def matrix_view_def)
  have h3: "(103, 104) \<noteq> (100 :: int, 100 :: int)" by simp
  from free_drag_from_anchor [OF h1 h2 h3, of matrix_view] h1 h2 h3
  show ?thesis by blast
qed

subsection \<open>Matrix algebra\<close>

lemma mat_vec_mul: "mat_vec (mat_mul A B) v = mat_vec A (mat_vec B v)"
  by (cases A rule: prod_cases4; cases B rule: prod_cases4; cases v rule: prod_cases4)
     (auto simp: Let_def algebra_simps split: prod.splits)

lemma mat_mul_identity_left: "mat_mul identity4 A = A"
  by (cases A rule: prod_cases4) (auto simp: identity4_def Let_def split: prod.splits)

lemma mat_mul_identity_right: "mat_mul A identity4 = A"
  by (cases A rule: prod_cases4) (auto simp: identity4_def Let_def split: prod.splits)

lemma normalized_unit:
  assumes "z \<noteq> 0"
  shows "norm_sq3 (normalized (x, y, z)) = 1"
proof -
  define S where "S = x * x + y * y + z * z"
  have "0 < z * z" using assms by (cases "0 < z") (auto simp: zero_less_mult_iff)
  moreover have "0 \<le> x * x" "0 \<le> y * y" by simp_all
  ultimately have S: "0 < S" unfolding S_def by linarith
  then show ?thesis
    unfolding S_def by (simp add: normalized_def Let_def add_divide_distrib [symmetric])
qed

subsection \<open>The orbit gesture\<close>

lemma tkAltButtonMotion1_step:
  assumes "last_mouse_pos s = Some (lx, ly)"
      and "orbit_rotation s = Some R"
      and "orbit_translation s = Some F"
      and "orbit_inv_translation s = Some G"
      and "view_state_when_pressed s = Some v0"
  shows "tkAltButtonMotion1 rd (a, b) s =
           Inr (s\<lparr>orbit_rotation :=
                    Some (mat_mul R (mat_mul (O13_y_rotation (real_of_int (a - lx) * 0.01))
                                             (O13_x_rotation (real_of_int (b - ly) * 0.01)))),
                  view_state :=
                    Some (update_view_state rd v0
                      (Some (mat_mul (mat_mul F
                         (mat_mul R (mat_mul (O13_y_rotation (real_of_int (a - lx) * 0.01))
                                             (O13_x_rotation (real_of_int (b - ly) * 0.01)))))
                         G))),
                  last_mouse_pos := Some (a, b),
                  redraws := Suc (redraws s)\<rparr>)"
  using assms by (simp add: tkAltButtonMotion1_def Let_def del: mat_mul.simps)

lemma orbit_drags:
  assumes "last_mouse_pos s = Some p"
      and "orbit_rotation s = Some R"
      and "orbit_translation s = Some F"
      and "orbit_inv_translation s = Some G"
      and "view_state_when_pressed s = Some v0"
      and "pts \<noteq> []"
  shows "\<exists>s'. run rd (map (\<lambda>(a, b). AltB1Motion a b) pts) s = Inr s'
           \<and> orbit_rotation s' = Some (orbit_accumulated R p pts)
           \<and> view_state s' =
               Some (update_view_state rd v0
                 (Some (mat_mul (mat_mul F (orbit_accumulated R p pts)) G)))
           \<and> view_state_when_pressed s' = Some v0
           \<and> orbit_translation s' = Some F \<and> orbit_inv_translation s' = Some G"
  using assms
proof (induction pts arbitrary: s p R)
  case Nil
  then show ?case by simp
next
  case (Cons q pts)
  obtain a b where q: "q = (a, b)" by (cases q)
  obtain lx ly where p: "p = (lx, ly)" by (cases p)
  define R1 where "R1 = mat_mul R (mat_mul (O13_y_rotation (real_of_int (a - lx) * 0.01))
                                             (O13_x_rotation (real_of_int (b - ly) * 0.01)))"
  define s1 where "s1 = s\<lparr>orbit_rotation := Some R1,
                  view_state := Some (update_view_state rd v0 (Some (mat_mul (mat_mul F R1) G))),
                  last_mouse_pos := Some (a, b),
                  redraws := Suc (redraws s)\<rparr>"
  have st: "tkAltButtonMotion1 rd (a, b) s = Inr s1"
    unfolding s1_def R1_def
    using tkAltButtonMotion1_step [of s lx ly R F G v0 rd a b] Cons.prems by (simp only: p)
  have f: "last_mouse_pos s1 = Some (a, b)" "orbit_rotation s1 = Some R1"
      "orbit_translation s1 = Some F" "orbit_inv_translation s1 = Some G"
      "view_state_when_pressed s1 = Some v0"
      "view_state s1 = Some (update_view_state rd v0 (Some (mat_mul (mat_mul F R1) G)))"
    using Cons.prems by (simp_all add: s1_def)
  have acc: "orbit_accumulated R p (q # pts) = orbit_accumulated R1 (a, b) pts"
    by (simp only: p q orbit_accumulated.simps R1_def)
  have r: "run rd (map (\<lambda>(a, b). AltB1Motion a b) (q # pts)) s
         = run rd (map (\<lambda>(a, b). AltB1Motion a b) pts) s1"
    by (simp add: q st)
  show ?case
  proof (cases "pts = []")
    case True
    then show ?thesis unfolding r acc using f by simp
  next
    case False
    from Cons.IH [OF f(1) f(2) f(3) f(4) f(5) False]
    show ?thesis unfolding r acc .
  qed
qed

text \<open>
  C5. An orbit press at pixel \<open>(x, y)\<close> with depth \<open>d\<close>, viewport \<open>(width, height)\<close>
  and field of view \<open>fov\<close>, on which the handler returns (the width is not zero, the
  tangent of half the field of view is not zero, and the depth lies strictly between
  -1 and 1): the direction is the centred pixel, both coordinates divided by the width,
  with depth component \<open>-0.5 / tan (fov / 2)\<close> (in degrees), normalised to length one;
  the forward translation has distance \<open>artanh d\<close> and the inverse one \<open>artanh (- d)\<close>;
  the accumulated rotation starts at the identity; and after every nonempty sequence of
  drag samples the view state is the update of the state captured at the press by
  forward times accumulated rotation times inverse.
\<close>

theorem orbit_press_and_drag:
  assumes "width \<noteq> 0" and "tan (fov / 360 * pi) \<noteq> 0"
      and "- 1 < depth" and "depth < 1"
      and "view_state s = Some v0"
      and "pts \<noteq> []"
  shows "\<exists>s1 s'.
     tkAltButton1 fov (depth, width, height) (x, y) s = Inr s1
     \<and> orbit_translation s1 =
         Some (unit_3_vector_and_distance_to_O13_hyperbolic_translation
           (normalized ((real_of_int x - 0.5 * width) / width,
                        ((height - real_of_int y) - 0.5 * height) / width,
                        - 0.5 / tan (fov / 360 * pi)))
           (artanh depth))
     \<and> orbit_inv_translation s1 =
         Some (unit_3_vector_and_distance_to_O13_hyperbolic_translation
           (normalized ((real_of_int x - 0.5 * width) / width,
                        ((height - real_of_int y) - 0.5 * height) / width,
                        - 0.5 / tan (fov / 360 * pi)))
           (artanh (- depth)))
     \<and> norm_sq3 (normalized ((real_of_int x - 0.5 * width) / width,
                        ((height - real_of_int y) - 0.5 * height) / width,
                        - 0.5 / tan (fov / 360 * pi))) = 1
     \<and> orbit_rotation s1 = Some identity4
     \<and> view_state_when_pressed s1 = Some v0
     \<and> run rd (AltButton1 fov (depth, width, height) x y # map (\<lambda>(a, b). AltB1Motion a b) pts) s
         = Inr s'
     \<and> view_state s' =
         Some (update_view_state rd v0
           (Some (mat_mul
              (mat_mul
                 (unit_3_vector_and_distance_to_O13_hyperbolic_translation
                    (normalized ((real_of_int x - 0.5 * width) / width,
                                 ((height - real_of_int y) - 0.5 * height) / width,
                                 - 0.5 / tan (fov / 360 * pi)))
                    (artanh depth))
                 (orbit_accumulated identity4 (x, y) pts))
              (unit_3_vector_and_distance_to_O13_hyperbolic_translation
                 (normalized ((real_of_int x - 0.5 * width) / width,
                              ((height - real_of_int y) - 0.5 * height) / width,
                              - 0.5 / tan (fov / 360 * pi)))
                 (artanh (- depth))))))"
proof -
  define dir where "dir = normalized ((real_of_int x - 0.5 * width) / width,
                        ((height - real_of_int y) - 0.5 * height) / width,
                        - 0.5 / tan (fov / 360 * pi))"
  define F where "F = unit_3_vector_and_distance_to_O13_hyperbolic_translation dir (artanh depth)"
  define G where "G = unit_3_vector_and_distance_to_O13_hyperbolic_translation dir (artanh (- depth))"
  define s1 where "s1 = s\<lparr>last_mouse_pos := Some (x, y), view_state_when_pressed := view_state s,
       orbit_translation := Some F, orbit_inv_translation := Some G, orbit_rotation := Some identity4\<rparr>"
  have press: "tkAltButton1 fov (depth, width, height) (x, y) s = Inr s1"
    using assms(1-4) by (simp add: tkAltButton1_def Let_def s1_def F_def G_def dir_def)
  have f: "last_mouse_pos s1 = Some (x, y)" "orbit_rotation s1 = Some identity4"
      "orbit_translation s1 = Some F" "orbit_inv_translation s1 = Some G"
      "view_state_when_pressed s1 = Some v0"
    using assms(5) by (simp_all add: s1_def)
  have z: "- 0.5 / tan (fov / 360 * pi) \<noteq> 0" using assms(2) by simp
  have unit: "norm_sq3 dir = 1" unfolding dir_def by (rule normalized_unit [OF z])
  from orbit_drags [OF f(1) f(2) f(3) f(4) f(5) assms(6), of rd]
  obtain s' where s': "run rd (map (\<lambda>(a, b). AltB1Motion a b) pts) s1 = Inr s'"
     "view_state s' = Some (update_view_state rd v0
                 (Some (mat_mul (mat_mul F (orbit_accumulated identity4 (x, y) pts)) G)))"
    by blast
  have r: "run rd (AltButton1 fov (depth, width, height) x y # map (\<lambda>(a, b). AltB1Motion a b) pts) s
         = Inr s'"
    using press s'(1) by simp
  show ?thesis
    using press f unit r s'(2) unfolding F_def G_def dir_def by blast
qed

text \<open>
  A press at the centre of a 100 by 100 viewport with field of view 90 degrees and
  depth 0, followed by one drag sample.
\<close>

theorem orbit_press_and_drag_witness:
  "(100 :: real) \<noteq> 0 \<and> tan (90 / 360 * pi) \<noteq> (0 :: real)
   \<and> - 1 < (0 :: real) \<and> (0 :: real) < 1
   \<and> view_state (init matrix_view 0) = Some identity4
   \<and> [(150 :: int, 50 :: int)] \<noteq> []
   \<and> (\<exists>s1 s'.
     tkAltButton1 90 (0, 100, 100) (50, 50) (init matrix_view 0) = Inr s1
     \<and> orbit_rotation s1 = Some identity4
     \<and> view_state_when_pressed s1 = Some identity4
     \<and> run matrix_view (AltButton1 90 (0, 100, 100) 50 50 #
            map (\<lambda>(a, b). AltB1Motion a b) [(150, 50)]) (init matrix_view 0) = Inr s'
     \<and> view_state s' =
         Some (update_view_state matrix_view identity4
           (Some (mat_mul
              (mat_mul
                 (unit_3_vector_and_distance_to_O13_hyperbolic_translation
                    (normalized ((real_of_int 50 - 0.5 * 100) / 100,
                                 ((100 - real_of_int 50) - 0.5 * 100) / 100,
                                 - 0.5 / tan (90 / 360 * pi)))
                    (artanh 0))
                 (orbit_accumulated identity4 (50, 50) [(150, 50)]))
              (unit_3_vector_and_distance_to_O13_hyperbolic_translation
                 (normalized ((real_of_int 50 - 0.5 * 100) / 100,
                              ((100 - real_of_int 50) - 0.5 * 100) / 100,
                              - 0.5 / tan (90 / 360 * pi)))
                 (artanh (- 0)))))))"
proof -
  have h1: "(100 :: real) \<noteq> 0" by simp
  have "(90 :: real) / 360 * pi = pi / 4" by simp
  then have h2: "tan (90 / 360 * pi) \<noteq> (0 :: real)" by (simp only: tan_45)
  have h3: "- 1 < (0 :: real)" and h4: "(0 :: real) < 1" by simp_all
  have h5: "view_state (init matrix_view 0) = Some identity4"
    by (simp add: init_def matrix_view_def)
  have h6: "[(150 :: int, 50 :: int)] \<noteq> []" by simp
  from orbit_press_and_drag [OF h1 h2 h3 h4 h5 h6, of 100 50 50 matrix_view]
  obtain s1 s' where
    "tkAltButton1 90 (0, 100, 100) (50, 50) (init matrix_view 0) = Inr s1"
    "orbit_rotation s1 = Some identity4"
    "view_state_when_pressed s1 = Some identity4"
    "run matrix_view (AltButton1 90 (0, 100, 100) 50 50 #
            map (\<lambda>(a, b). AltB1Motion a b) [(150, 50)]) (init matrix_view 0) = Inr s'"
    "view_state s' =
         Some (update_view_state matrix_view identity4
           (Some (mat_mul
              (mat_mul
                 (unit_3_vector_and_distance_to_O13_hyperbolic_translation
                    (normalized ((real_of_int 50 - 0.5 * 100) / 100,
                                 ((100 - real_of_int 50) - 0.5 * 100) / 100,
                                 - 0.5 / tan (90 / 360 * pi)))
                    (artanh 0))
                 (orbit_accumulated identity4 (50, 50) [(150, 50)]))
              (unit_3_vector_and_distance_to_O13_hyperbolic_translation
                 (normalized ((real_of_int 50 - 0.5 * 100) / 100,
                              ((100 - real_of_int 50) - 0.5 * 100) / 100,
                              - 0.5 / tan (90 / 360 * pi)))
                 (artanh (- 0))))))"
    by blast
  with h1 h2 h3 h4 h5 h6 show ?thesis by blast
qed

subsection \<open>Concrete operators and a concrete orbit press\<close>

lemma translation_zero: "unit_3_vector_and_distance_to_O13_hyperbolic_translation v 0 = identity4"
  by (cases v rule: prod_cases3)
     (simp add: unit_3_vector_and_distance_to_O13_hyperbolic_translation_def identity4_def)

lemma x_rotation_zero: "O13_x_rotation 0 = identity4"
  by (simp add: O13_x_rotation_def identity4_def)


lemma sin_one_neq_zero: "sin (1 :: real) \<noteq> 0"
  using sin_gt_zero_02 [of "1 :: real"] by simp

lemma y_rotation_one_neq_identity: "O13_y_rotation 1 \<noteq> identity4"
  using sin_one_neq_zero by (simp add: O13_y_rotation_def identity4_def Let_def)


lemma tan_fov_90: "tan (90 / 360 * pi) = (1 :: real)"
proof -
  have "(90 :: real) / 360 * pi = pi / 4" by simp
  then show ?thesis by (simp only: tan_45)
qed

lemma orbit_press_centre:
  "tkAltButton1 90 (0, 100, 100) (50, 50) (init matrix_view 0) =
     Inr ((init matrix_view 0)
       \<lparr>last_mouse_pos := Some (50, 50),
        view_state_when_pressed := Some identity4,
        orbit_translation := Some identity4,
        orbit_inv_translation := Some identity4,
        orbit_rotation := Some identity4\<rparr>)"
  by (simp add: tkAltButton1_def Let_def tan_45 translation_zero init_def matrix_view_def)


subsection \<open>The anchors after a release\<close>

text \<open>A drag callback whose anchor is not set returns and leaves the state as it is.\<close>

lemma drag_without_anchor:
  "mouse_pos_when_pressed s = None \<Longrightarrow>
     tkButtonMotion1 rd ev s = Inr s \<and> tkCtrlButtonMotion1 rd ev s = Inr s"
  "last_mouse_pos s = None \<Longrightarrow> tkAltButtonMotion1 rd ev s = Inr s"
  by (simp_all add: tkButtonMotion1_def tkCtrlButtonMotion1_def tkAltButtonMotion1_def)

lemma release_clears_free_anchor: "mouse_pos_when_pressed (tkButtonRelease1 s) = None"
  by (simp add: tkButtonRelease1_def)

text \<open>
  C8. The release handler clears the anchor of the free gesture only; it leaves the
  anchor of the orbit gesture, \<open>last_mouse_pos\<close>, as it is. So after an orbit press
  and a release, an orbit drag still passes the guard and changes the view state: here
  the press is at the centre of a 100 by 100 viewport with depth 0, and the drag after
  the release, 100 pixels to the right, turns the view by one radian.
\<close>

theorem orbit_drag_after_release:
  "last_mouse_pos (tkButtonRelease1 s) = last_mouse_pos s
   \<and> (\<exists>s'. run matrix_view
            [AltButton1 90 (0, 100, 100) 50 50, ButtonRelease1, AltB1Motion 150 50]
            (init matrix_view 0) = Inr s'
          \<and> last_mouse_pos s' = Some (150, 50)
          \<and> view_state s' = Some (O13_y_rotation 1)
          \<and> view_state s' \<noteq> view_state (init matrix_view 0))"
proof -
  define s1 where "s1 = (init matrix_view 0)
       \<lparr>last_mouse_pos := Some (50, 50),
        view_state_when_pressed := Some identity4,
        orbit_translation := Some identity4,
        orbit_inv_translation := Some identity4,
        orbit_rotation := Some identity4\<rparr>"
  define s2 where "s2 = tkButtonRelease1 s1"
  have f: "last_mouse_pos s2 = Some (50, 50)" "orbit_rotation s2 = Some identity4"
      "orbit_translation s2 = Some identity4" "orbit_inv_translation s2 = Some identity4"
      "view_state_when_pressed s2 = Some identity4"
    by (simp_all add: s2_def s1_def tkButtonRelease1_def)
  define s3 where "s3 = s2\<lparr>orbit_rotation := Some (O13_y_rotation 1),
                  view_state := Some (O13_y_rotation 1),
                  last_mouse_pos := Some (150, 50),
                  redraws := Suc (redraws s2)\<rparr>"
  have m: "mat_mul identity4 (mat_mul (O13_y_rotation (real_of_int (150 - 50) * 0.01))
                                       (O13_x_rotation (real_of_int (50 - 50) * 0.01)))
           = O13_y_rotation 1"
    by (simp add: x_rotation_zero mat_mul_identity_left mat_mul_identity_right del: mat_mul.simps)
  have u: "update_view_state matrix_view identity4
             (Some (mat_mul (mat_mul identity4 (O13_y_rotation 1)) identity4)) = O13_y_rotation 1"
    by (simp add: matrix_view_def mat_mul_identity_left mat_mul_identity_right del: mat_mul.simps)
  have d: "tkAltButtonMotion1 matrix_view (150, 50) s2 = Inr s3"
    unfolding s3_def
    using tkAltButtonMotion1_step [OF f, of matrix_view 150 50]
    by (simp only: m u)
  have r: "run matrix_view
            [AltButton1 90 (0, 100, 100) 50 50, ButtonRelease1, AltB1Motion 150 50]
            (init matrix_view 0) = Inr s3"
    using orbit_press_centre d by (simp add: s1_def s2_def)
  have v: "view_state (init matrix_view 0) = Some identity4"
    by (simp add: init_def matrix_view_def)
  have "last_mouse_pos s3 = Some (150, 50)" "view_state s3 = Some (O13_y_rotation 1)"
    by (simp_all add: s3_def)
  moreover have "last_mouse_pos (tkButtonRelease1 s) = last_mouse_pos s"
    by (simp add: tkButtonRelease1_def)
  ultimately show ?thesis
    using r v y_rotation_one_neq_identity by simp
qed

subsection \<open>The tick\<close>

lemma integrate_foldl:
  assumes "keys_ready ks lt"
  shows "integrate now rv tv ks (lt, m, a) =
           Inr ((\<lambda>k. if k \<in> set ks then Some now else lt k),
                foldl mat_mul m (map (key_operator now rv tv lt) ks),
                a \<or> ks \<noteq> [])"
  using assms
proof (induction ks arbitrary: lt m a)
  case Nil
  then show ?case by simp
next
  case (Cons k ks)
  from Cons.prems obtain f t0 where f: "key_movement_bindings k = Some f" and t0: "lt k = Some t0"
    unfolding keys_ready_def by auto
  from Cons.prems have nk: "k \<notin> set ks" unfolding keys_ready_def by simp
  have rdy: "keys_ready ks (lt(k \<mapsto> now))"
    using Cons.prems unfolding keys_ready_def by auto
  have ops: "map (key_operator now rv tv (lt(k \<mapsto> now))) ks = map (key_operator now rv tv lt) ks"
  proof (rule map_cong [OF refl])
    fix x assume "x \<in> set ks"
    then have "x \<noteq> k" using nk by auto
    then show "key_operator now rv tv (lt(k \<mapsto> now)) x = key_operator now rv tv lt x"
      by (simp add: key_operator_def split: option.splits)
  qed
  have lts: "(\<lambda>k'. if k' \<in> set ks then Some now else (lt(k \<mapsto> now)) k')
           = (\<lambda>k'. if k' \<in> set (k # ks) then Some now else lt k')"
    by auto
  have hd: "key_operator now rv tv lt k = f ((now - t0) * rv) ((now - t0) * tv)"
    by (simp add: key_operator_def f t0)
  have "integrate now rv tv (k # ks) (lt, m, a)
      = integrate now rv tv ks (lt(k \<mapsto> now), mat_mul m (f ((now - t0) * rv) ((now - t0) * tv)), True)"
    by (simp add: f t0 Let_def del: mat_mul.simps)
  also have "\<dots> = Inr ((\<lambda>k'. if k' \<in> set ks then Some now else (lt(k \<mapsto> now)) k'),
                foldl mat_mul (mat_mul m (f ((now - t0) * rv) ((now - t0) * tv)))
                  (map (key_operator now rv tv (lt(k \<mapsto> now))) ks),
                True \<or> ks \<noteq> [])"
    by (rule Cons.IH [OF rdy])
  finally show ?case
    by (simp only: ops lts hd foldl.simps list.map) simp
qed

lemma do_movement_idle:
  assumes "evict now (time_key_release_received s) (current_keys_pressed s) = []"
  shows "do_movement rd now s = Inr (s\<lparr>current_keys_pressed := []\<rparr>)"
  using assms by (simp add: do_movement_def Let_def)

lemma do_movement_moving:
  assumes "evict now (time_key_release_received s) (current_keys_pressed s) = ks"
      and "ks \<noteq> []"
      and "keys_ready ks (last_time s)"
      and "view_state s = Some v"
  shows "do_movement rd now s =
           Inr (s\<lparr>current_keys_pressed := ks,
                  last_time := (\<lambda>k. if k \<in> set ks then Some now else last_time s k),
                  view_state := Some (update_view_state rd v
                    (Some (foldl mat_mul identity4
                       (map (key_operator now (rotationVelocity s) (translationVelocity s)
                               (last_time s)) ks)))),
                  redraws := Suc (redraws s),
                  scheduled := scheduled s @ [refresh_delay s]\<rparr>)"
  using assms
  by (simp add: do_movement_def Let_def integrate_foldl del: mat_mul.simps)

subsection \<open>The order of multiplication\<close>












subsection \<open>Arming the tick\<close>

lemma binding_a: "key_movement_bindings ''a'' = Some (\<lambda>rot_amount trans_amount.
    unit_3_vector_and_distance_to_O13_hyperbolic_translation (- 1, 0, 0) trans_amount)"
  by (simp add: key_movement_bindings_def)

lemma binding_d: "key_movement_bindings ''d'' = Some (\<lambda>rot_amount trans_amount.
    unit_3_vector_and_distance_to_O13_hyperbolic_translation (1, 0, 0) trans_amount)"
  by (simp add: key_movement_bindings_def)

lemma tkKeyPress_scheduled:
  "scheduled (tkKeyPress now k s) =
     (if k \<in> dom key_movement_bindings \<and> k \<notin> set (current_keys_pressed s)
      then scheduled s @ [1] else scheduled s)"
  by (simp add: tkKeyPress_def Let_def)

lemma do_movement_scheduled:
  "scheduled (outcome_state (do_movement rd now s)) = scheduled s
   \<or> scheduled (outcome_state (do_movement rd now s)) = scheduled s @ [refresh_delay s]"
  by (simp add: do_movement_def outcome_state_def Let_def split: sum.splits prod.splits option.splits)

lemma a_d_pressed:
  "tkKeyPress (1 / 1000) ''d'' (tkKeyPress 0 ''a'' (init matrix_view 0)) =
     (init matrix_view 0)
       \<lparr>current_keys_pressed := [''a'', ''d''],
        last_time := [''a'' \<mapsto> 0, ''d'' \<mapsto> 1 / 1000],
        scheduled := [1, 1]\<rparr>"
  by (simp add: tkKeyPress_def Let_def init_def binding_a binding_d domIff)

text \<open>
  C2, as the specification states it, fails: the key \<open>a\<close> is pressed, so the set of
  pressed keys is not empty and a tick callback is pending, and the press of \<open>d\<close>
  one millisecond later arms a second callback.
\<close>

theorem single_tick_chain_counterexample:
  "current_keys_pressed (tkKeyPress 0 ''a'' (init matrix_view 0)) = [''a'']
   \<and> scheduled (tkKeyPress 0 ''a'' (init matrix_view 0)) = [1]
   \<and> scheduled (tkKeyPress (1 / 1000) ''d'' (tkKeyPress 0 ''a'' (init matrix_view 0))) = [1, 1]
   \<and> \<not> length (scheduled (tkKeyPress (1 / 1000) ''d'' (tkKeyPress 0 ''a'' (init matrix_view 0)))) \<le> 1"
proof -
  have "tkKeyPress 0 ''a'' (init matrix_view 0) =
     (init matrix_view 0)
       \<lparr>current_keys_pressed := [''a''], last_time := [''a'' \<mapsto> 0], scheduled := [1]\<rparr>"
    by (simp add: tkKeyPress_def Let_def init_def binding_a domIff)
  then show ?thesis unfolding a_d_pressed by simp
qed

text \<open>
  C2, amended. The key-press handler arms a tick callback exactly when the pressed key
  is movement-bound and is not itself in the set of pressed keys; the guard is on that
  key, not on the set being empty. So a press of a key that is already held arms
  nothing, and a press of a bound key that is not held arms a callback whatever else is
  held. A callback that fires re-arms at most one callback, so firing never increases
  the number of pending callbacks.
\<close>

theorem tick_arming:
  "scheduled (tkKeyPress now k s) =
     (if k \<in> dom key_movement_bindings \<and> k \<notin> set (current_keys_pressed s)
      then scheduled s @ [1] else scheduled s)
   \<and> length (scheduled (outcome_state (step rd (Timer now) s))) \<le> length (scheduled s)"
proof
  show "scheduled (tkKeyPress now k s) =
     (if k \<in> dom key_movement_bindings \<and> k \<notin> set (current_keys_pressed s)
      then scheduled s @ [1] else scheduled s)"
    by (rule tkKeyPress_scheduled)
  show "length (scheduled (outcome_state (step rd (Timer now) s))) \<le> length (scheduled s)"
  proof (cases "scheduled s")
    case Nil
    then show ?thesis by simp
  next
    case (Cons d rest)
    from do_movement_scheduled [of rd now "s\<lparr>scheduled := rest\<rparr>"]
    show ?thesis using Cons by auto
  qed
qed

text \<open>The second press of the counterexample, and the first tick after it.\<close>

theorem tick_arming_witness:
  "scheduled (tkKeyPress (1 / 1000) ''d'' (tkKeyPress 0 ''a'' (init matrix_view 0))) =
     scheduled (tkKeyPress 0 ''a'' (init matrix_view 0)) @ [1]
   \<and> length (scheduled (outcome_state (step matrix_view (Timer (1 / 100))
        (tkKeyPress (1 / 1000) ''d'' (tkKeyPress 0 ''a'' (init matrix_view 0)))))) \<le> 2"
proof -
  have b: "''d'' \<in> dom key_movement_bindings" by (simp add: binding_d domIff)
  have h: "''d'' \<notin> set (current_keys_pressed (tkKeyPress 0 ''a'' (init matrix_view 0)))"
    by (simp add: tkKeyPress_def Let_def init_def binding_a domIff)
  have l: "length (scheduled (tkKeyPress (1 / 1000) ''d'' (tkKeyPress 0 ''a'' (init matrix_view 0)))) = 2"
    unfolding a_d_pressed by simp
  from tick_arming [of "1 / 1000" "''d''" "tkKeyPress 0 ''a'' (init matrix_view 0)" matrix_view]
       tick_arming [of "1 / 100" "''d''"
         "tkKeyPress (1 / 1000) ''d'' (tkKeyPress 0 ''a'' (init matrix_view 0))" matrix_view]
       b h l
  show ?thesis by simp
qed

subsection \<open>Integration of the key motion\<close>

lemma evict_filter:
  "distinct keys \<Longrightarrow>
   evict now items keys = filter (\<lambda>k. \<not> (\<exists>t. (k, t) \<in> set items \<and> now - t > 5 / 1000)) keys"
proof (induction items arbitrary: keys)
  case Nil
  then show ?case by simp
next
  case (Cons it items)
  obtain k t where it: "it = (k, t)" by (cases it)
  show ?case
  proof (cases "now - t > 5 / 1000")
    case True
    have d: "distinct (remove1 k keys)" using Cons.prems by simp
    have r: "remove1 k keys = filter (\<lambda>x. x \<noteq> k) keys"
      using Cons.prems by (simp add: distinct_remove1_removeAll removeAll_filter_not_eq) metis
    have "evict now (it # items) keys = evict now items (remove1 k keys)"
      using True by (simp add: it remove1_idem)
    also have "\<dots> = filter (\<lambda>k'. \<not> (\<exists>t. (k', t) \<in> set items \<and> now - t > 5 / 1000)) (remove1 k keys)"
      by (rule Cons.IH [OF d])
    also have "\<dots> = filter (\<lambda>k'. \<not> (\<exists>t'. (k', t') \<in> set (it # items) \<and> now - t' > 5 / 1000)) keys"
      unfolding r using True by (auto simp: it intro!: filter_cong)
    finally show ?thesis .
  next
    case False
    have "evict now (it # items) keys = evict now items keys"
      using False by (simp add: it)
    also have "\<dots> = filter (\<lambda>k'. \<not> (\<exists>t. (k', t) \<in> set items \<and> now - t > 5 / 1000)) keys"
      by (rule Cons.IH [OF Cons.prems])
    also have "\<dots> = filter (\<lambda>k'. \<not> (\<exists>t'. (k', t') \<in> set (it # items) \<and> now - t' > 5 / 1000)) keys"
      using False by (auto simp: it intro!: filter_cong)
    finally show ?thesis .
  qed
qed

lemma evict_no_record:
  assumes "k \<notin> fst ` set items"
  shows "evict now items [k] = [k]"
proof -
  have "\<not> (\<exists>t. (k, t) \<in> set items \<and> now - t > 5 / 1000)"
    using assms by force
  then show ?thesis by (simp add: evict_filter)
qed

lemma evict_expired:
  assumes "(k, t) \<in> set items" and "now - t > 5 / 1000"
  shows "evict now items [k] = []"
proof -
  have "\<exists>t. (k, t) \<in> set items \<and> now - t > 5 / 1000"
    using assms by blast
  then show ?thesis by (simp add: evict_filter)
qed

lemma update_mem: "(k, v) \<in> set (AList.update k v al)"
  by (induction al) auto

lemma key_operator_bound:
  "key_movement_bindings k = Some f \<Longrightarrow> lt k = Some t0 \<Longrightarrow>
   key_operator now rv tv lt k = f ((now - t0) * rv) ((now - t0) * tv)"
  by (simp add: key_operator_def)

lemma press_a_from_idle:
  assumes "current_keys_pressed s = []"
  shows "tkKeyPress t0 ''a'' s =
           s\<lparr>time_key_release_received := AList.delete ''a'' (time_key_release_received s),
             last_time := (last_time s)(''a'' \<mapsto> t0),
             current_keys_pressed := [''a''],
             scheduled := scheduled s @ [1]\<rparr>"
proof (cases "''a'' \<in> fst ` set (time_key_release_received s)")
  case True
  then show ?thesis
    using assms a_bound by (simp add: tkKeyPress_def Let_def)
next
  case False
  then have "AList.delete ''a'' (time_key_release_received s) = time_key_release_received s"
    by simp
  then show ?thesis
    using assms a_bound False by (simp add: tkKeyPress_def Let_def)
qed


lemma press_a_then_tick:
  assumes "current_keys_pressed s0 = []" and "view_state s0 = Some v"
  shows "do_movement rd (t0 + dt) (tkKeyPress t0 ''a'' s0) =
           Inr (s0\<lparr>time_key_release_received := AList.delete ''a'' (time_key_release_received s0),
                   last_time := (\<lambda>k. if k \<in> set [''a''] then Some (t0 + dt)
                                        else ((last_time s0)(''a'' \<mapsto> t0)) k),
                   current_keys_pressed := [''a''],
                   view_state := Some (update_view_state rd v
                     (Some (unit_3_vector_and_distance_to_O13_hyperbolic_translation (- 1, 0, 0)
                              (dt * translationVelocity s0)))),
                   redraws := Suc (redraws s0),
                   scheduled := scheduled s0 @ [1, refresh_delay s0]\<rparr>)"
proof -
  define s1 where "s1 = s0\<lparr>time_key_release_received := AList.delete ''a'' (time_key_release_received s0),
             last_time := (last_time s0)(''a'' \<mapsto> t0),
             current_keys_pressed := [''a''],
             scheduled := scheduled s0 @ [1]\<rparr>"
  have p: "tkKeyPress t0 ''a'' s0 = s1"
    unfolding s1_def by (rule press_a_from_idle [OF assms(1)])
  have e: "evict (t0 + dt) (time_key_release_received s1) (current_keys_pressed s1) = [''a'']"
    by (simp add: s1_def evict_no_record AList.delete_notin_dom)
  have rdy: "keys_ready [''a''] (last_time s1)"
    using a_bound by (simp add: keys_ready_def s1_def)
  have v: "view_state s1 = Some v" using assms(2) by (simp add: s1_def)
  have op: "key_operator (t0 + dt) (rotationVelocity s1) (translationVelocity s1) (last_time s1) ''a''
          = unit_3_vector_and_distance_to_O13_hyperbolic_translation (- 1, 0, 0)
              (dt * translationVelocity s0)"
    by (simp add: key_operator_def binding_a s1_def)
  have f: "foldl mat_mul identity4
             (map (key_operator (t0 + dt) (rotationVelocity s1) (translationVelocity s1) (last_time s1))
                [''a''])
         = unit_3_vector_and_distance_to_O13_hyperbolic_translation (- 1, 0, 0)
              (dt * translationVelocity s0)"
    by (simp add: op mat_mul_identity_left del: mat_mul.simps)
  have "do_movement rd (t0 + dt) s1 =
           Inr (s1\<lparr>current_keys_pressed := [''a''],
                  last_time := (\<lambda>k. if k \<in> set [''a''] then Some (t0 + dt) else last_time s1 k),
                  view_state := Some (update_view_state rd v
                    (Some (unit_3_vector_and_distance_to_O13_hyperbolic_translation (- 1, 0, 0)
                              (dt * translationVelocity s0)))),
                  redraws := Suc (redraws s1),
                  scheduled := scheduled s1 @ [refresh_delay s1]\<rparr>)"
    using do_movement_moving [OF e _ rdy v, of rd] by (simp only: f) simp
  then show ?thesis
    unfolding p by (simp add: s1_def cong: if_cong)
qed

lemma release_a_then_tick:
  assumes "current_keys_pressed s2 = [''a'']" and "5 / 1000 < t2 - t1"
  shows "do_movement rd t2 (tkKeyRelease t1 ''a'' s2) =
           Inr (s2\<lparr>time_key_release_received := AList.update ''a'' t1 (time_key_release_received s2),
                   current_keys_pressed := []\<rparr>)"
proof -
  have "evict t2 (time_key_release_received (tkKeyRelease t1 ''a'' s2))
          (current_keys_pressed (tkKeyRelease t1 ''a'' s2)) = []"
    using assms by (simp add: tkKeyRelease_def evict_expired [OF update_mem])
  from do_movement_idle [OF this, of rd] show ?thesis
    by (simp add: tkKeyRelease_def)
qed


text \<open>
  C4. A tick integrates, for every held key, the time elapsed since that key was last
  integrated and sets that time to now; the key's binding receives the elapsed time
  scaled by the rotation velocity and by the translation velocity, and the six
  translation bindings use the translation amount, the six rotation bindings the
  rotation amount. Starting with no key held: after a press of \<open>a\<close> and a tick
  \<open>dt\<close> seconds later, the operator handed to the collaborator is the translation by
  \<open>dt\<close> times the translation velocity along the negative first axis, and the tick
  is re-armed; after a release of \<open>a\<close> and a tick more than 5 ms later, the key is
  evicted, the view state is not updated, nothing is redrawn and nothing is re-armed.
\<close>

theorem key_motion_integration:
  "(keys_ready ks (last_time s)
      \<and> evict now (time_key_release_received s) (current_keys_pressed s) = ks
      \<and> ks \<noteq> [] \<and> view_state s = Some v \<longrightarrow>
      (\<exists>s'. do_movement rd now s = Inr s'
         \<and> (\<forall>k \<in> set ks. last_time s' k = Some now)
         \<and> view_state s' =
             Some (update_view_state rd v
               (Some (foldl mat_mul identity4
                  (map (key_operator now (rotationVelocity s) (translationVelocity s)
                          (last_time s)) ks))))))
   \<and> (key_movement_bindings k = Some f \<and> lt k = Some t0 \<longrightarrow>
        key_operator now rv tv lt k = f ((now - t0) * rv) ((now - t0) * tv))
   \<and> map_option (\<lambda>f. f r t) (key_movement_bindings ''a'') = Some (unit_3_vector_and_distance_to_O13_hyperbolic_translation (- 1, 0, 0) t)
   \<and> map_option (\<lambda>f. f r t) (key_movement_bindings ''d'') = Some (unit_3_vector_and_distance_to_O13_hyperbolic_translation (1, 0, 0) t)
   \<and> map_option (\<lambda>f. f r t) (key_movement_bindings ''c'') = Some (unit_3_vector_and_distance_to_O13_hyperbolic_translation (0, - 1, 0) t)
   \<and> map_option (\<lambda>f. f r t) (key_movement_bindings ''e'') = Some (unit_3_vector_and_distance_to_O13_hyperbolic_translation (0, 1, 0) t)
   \<and> map_option (\<lambda>f. f r t) (key_movement_bindings ''w'') = Some (unit_3_vector_and_distance_to_O13_hyperbolic_translation (0, 0, - 1) t)
   \<and> map_option (\<lambda>f. f r t) (key_movement_bindings ''s'') = Some (unit_3_vector_and_distance_to_O13_hyperbolic_translation (0, 0, 1) t)
   \<and> map_option (\<lambda>f. f r t) (key_movement_bindings ''Left'') = Some (O13_y_rotation (- r))
   \<and> map_option (\<lambda>f. f r t) (key_movement_bindings ''Right'') = Some (O13_y_rotation r)
   \<and> map_option (\<lambda>f. f r t) (key_movement_bindings ''Up'') = Some (O13_x_rotation (- r))
   \<and> map_option (\<lambda>f. f r t) (key_movement_bindings ''Down'') = Some (O13_x_rotation r)
   \<and> map_option (\<lambda>f. f r t) (key_movement_bindings ''x'') = Some (O13_z_rotation (- r))
   \<and> map_option (\<lambda>f. f r t) (key_movement_bindings ''z'') = Some (O13_z_rotation r)
   \<and> (current_keys_pressed s0 = [] \<and> view_state s0 = Some v0 \<and> 5 / 1000 < t2 - t1 \<longrightarrow>
      (\<exists>s2 s4.
         do_movement rd (t0' + dt) (tkKeyPress t0' ''a'' s0) = Inr s2
         \<and> view_state s2 =
             Some (update_view_state rd v0
               (Some (unit_3_vector_and_distance_to_O13_hyperbolic_translation (- 1, 0, 0)
                        (dt * translationVelocity s0))))
         \<and> last_time s2 ''a'' = Some (t0' + dt)
         \<and> scheduled s2 = scheduled s0 @ [1, refresh_delay s0]
         \<and> do_movement rd t2 (tkKeyRelease t1 ''a'' s2) = Inr s4
         \<and> current_keys_pressed s4 = []
         \<and> view_state s4 = view_state s2
         \<and> redraws s4 = redraws s2
         \<and> scheduled s4 = scheduled s2))"
proof -
  have A: "(keys_ready ks (last_time s)
      \<and> evict now (time_key_release_received s) (current_keys_pressed s) = ks
      \<and> ks \<noteq> [] \<and> view_state s = Some v \<longrightarrow>
      (\<exists>s'. do_movement rd now s = Inr s'
         \<and> (\<forall>k \<in> set ks. last_time s' k = Some now)
         \<and> view_state s' =
             Some (update_view_state rd v
               (Some (foldl mat_mul identity4
                  (map (key_operator now (rotationVelocity s) (translationVelocity s)
                          (last_time s)) ks))))))"
  proof
    assume a: "keys_ready ks (last_time s)
      \<and> evict now (time_key_release_received s) (current_keys_pressed s) = ks
      \<and> ks \<noteq> [] \<and> view_state s = Some v"
    then have "do_movement rd now s =
           Inr (s\<lparr>current_keys_pressed := ks,
                  last_time := (\<lambda>k. if k \<in> set ks then Some now else last_time s k),
                  view_state := Some (update_view_state rd v
                    (Some (foldl mat_mul identity4
                       (map (key_operator now (rotationVelocity s) (translationVelocity s)
                               (last_time s)) ks)))),
                  redraws := Suc (redraws s),
                  scheduled := scheduled s @ [refresh_delay s]\<rparr>)"
      using do_movement_moving [of now s ks v rd] by blast
    then show "\<exists>s'. do_movement rd now s = Inr s'
         \<and> (\<forall>k \<in> set ks. last_time s' k = Some now)
         \<and> view_state s' =
             Some (update_view_state rd v
               (Some (foldl mat_mul identity4
                  (map (key_operator now (rotationVelocity s) (translationVelocity s)
                          (last_time s)) ks))))"
      by simp
  qed
  have B: "(key_movement_bindings k = Some f \<and> lt k = Some t0 \<longrightarrow>
        key_operator now rv tv lt k = f ((now - t0) * rv) ((now - t0) * tv))"
    by (simp add: key_operator_bound)
  have bs: "map_option (\<lambda>f. f r t) (key_movement_bindings ''a'') = Some (unit_3_vector_and_distance_to_O13_hyperbolic_translation (- 1, 0, 0) t)
   \<and> map_option (\<lambda>f. f r t) (key_movement_bindings ''d'') = Some (unit_3_vector_and_distance_to_O13_hyperbolic_translation (1, 0, 0) t)
   \<and> map_option (\<lambda>f. f r t) (key_movement_bindings ''c'') = Some (unit_3_vector_and_distance_to_O13_hyperbolic_translation (0, - 1, 0) t)
   \<and> map_option (\<lambda>f. f r t) (key_movement_bindings ''e'') = Some (unit_3_vector_and_distance_to_O13_hyperbolic_translation (0, 1, 0) t)
   \<and> map_option (\<lambda>f. f r t) (key_movement_bindings ''w'') = Some (unit_3_vector_and_distance_to_O13_hyperbolic_translation (0, 0, - 1) t)
   \<and> map_option (\<lambda>f. f r t) (key_movement_bindings ''s'') = Some (unit_3_vector_and_distance_to_O13_hyperbolic_translation (0, 0, 1) t)
   \<and> map_option (\<lambda>f. f r t) (key_movement_bindings ''Left'') = Some (O13_y_rotation (- r))
   \<and> map_option (\<lambda>f. f r t) (key_movement_bindings ''Right'') = Some (O13_y_rotation r)
   \<and> map_option (\<lambda>f. f r t) (key_movement_bindings ''Up'') = Some (O13_x_rotation (- r))
   \<and> map_option (\<lambda>f. f r t) (key_movement_bindings ''Down'') = Some (O13_x_rotation r)
   \<and> map_option (\<lambda>f. f r t) (key_movement_bindings ''x'') = Some (O13_z_rotation (- r))
   \<and> map_option (\<lambda>f. f r t) (key_movement_bindings ''z'') = Some (O13_z_rotation r)"
    by (simp add: key_movement_bindings_def)
  have C: "(current_keys_pressed s0 = [] \<and> view_state s0 = Some v0 \<and> 5 / 1000 < t2 - t1 \<longrightarrow>
      (\<exists>s2 s4.
         do_movement rd (t0' + dt) (tkKeyPress t0' ''a'' s0) = Inr s2
         \<and> view_state s2 =
             Some (update_view_state rd v0
               (Some (unit_3_vector_and_distance_to_O13_hyperbolic_translation (- 1, 0, 0)
                        (dt * translationVelocity s0))))
         \<and> last_time s2 ''a'' = Some (t0' + dt)
         \<and> scheduled s2 = scheduled s0 @ [1, refresh_delay s0]
         \<and> do_movement rd t2 (tkKeyRelease t1 ''a'' s2) = Inr s4
         \<and> current_keys_pressed s4 = []
         \<and> view_state s4 = view_state s2
         \<and> redraws s4 = redraws s2
         \<and> scheduled s4 = scheduled s2))"
  proof
    assume a: "current_keys_pressed s0 = [] \<and> view_state s0 = Some v0 \<and> 5 / 1000 < t2 - t1"
    define s2 where "s2 = s0\<lparr>time_key_release_received := AList.delete ''a'' (time_key_release_received s0),
                   last_time := (\<lambda>k. if k \<in> set [''a''] then Some (t0' + dt)
                                        else ((last_time s0)(''a'' \<mapsto> t0')) k),
                   current_keys_pressed := [''a''],
                   view_state := Some (update_view_state rd v0
                     (Some (unit_3_vector_and_distance_to_O13_hyperbolic_translation (- 1, 0, 0)
                              (dt * translationVelocity s0)))),
                   redraws := Suc (redraws s0),
                   scheduled := scheduled s0 @ [1, refresh_delay s0]\<rparr>"
    define s4 where "s4 = s2\<lparr>time_key_release_received := AList.update ''a'' t1 (time_key_release_received s2),
                   current_keys_pressed := []\<rparr>"
    have one: "do_movement rd (t0' + dt) (tkKeyPress t0' ''a'' s0) = Inr s2"
      unfolding s2_def using a press_a_then_tick [where ?s0.0 = s0 and v = v0 and rd = rd and ?t0.0 = t0' and dt = dt] by blast
    have h: "current_keys_pressed s2 = [''a'']" by (simp add: s2_def)
    have two: "do_movement rd t2 (tkKeyRelease t1 ''a'' s2) = Inr s4"
      unfolding s4_def using a release_a_then_tick [OF h, where ?t1.0 = t1 and ?t2.0 = t2 and rd = rd] by blast
    have "view_state s2 =
             Some (update_view_state rd v0
               (Some (unit_3_vector_and_distance_to_O13_hyperbolic_translation (- 1, 0, 0)
                        (dt * translationVelocity s0))))"
         "last_time s2 ''a'' = Some (t0' + dt)"
         "scheduled s2 = scheduled s0 @ [1, refresh_delay s0]"
         "current_keys_pressed s4 = []" "view_state s4 = view_state s2"
         "redraws s4 = redraws s2" "scheduled s4 = scheduled s2"
      by (simp_all add: s2_def s4_def)
    with one two show "\<exists>s2 s4.
         do_movement rd (t0' + dt) (tkKeyPress t0' ''a'' s0) = Inr s2
         \<and> view_state s2 =
             Some (update_view_state rd v0
               (Some (unit_3_vector_and_distance_to_O13_hyperbolic_translation (- 1, 0, 0)
                        (dt * translationVelocity s0))))
         \<and> last_time s2 ''a'' = Some (t0' + dt)
         \<and> scheduled s2 = scheduled s0 @ [1, refresh_delay s0]
         \<and> do_movement rd t2 (tkKeyRelease t1 ''a'' s2) = Inr s4
         \<and> current_keys_pressed s4 = []
         \<and> view_state s4 = view_state s2
         \<and> redraws s4 = redraws s2
         \<and> scheduled s4 = scheduled s2"
      by blast
  qed
  from A B bs C show ?thesis by blast
qed


text \<open>
  The key \<open>a\<close> pressed at time 0 on a fresh instance, a tick at time 1, the release at
  time 2 and a tick at time 3.
\<close>

theorem key_motion_integration_witness:
  "(\<exists>s'. do_movement matrix_view 1 (tkKeyPress 0 ''a'' (init matrix_view 0)) = Inr s'
         \<and> last_time s' ''a'' = Some 1
         \<and> view_state s' =
             Some (update_view_state matrix_view identity4
               (Some (foldl mat_mul identity4
                  (map (key_operator 1 (4 / 10) (4 / 10) [''a'' \<mapsto> 0]) [''a''])))))
   \<and> key_operator 1 (4 / 10) (4 / 10) [''a'' \<mapsto> 0] ''a'' =
       unit_3_vector_and_distance_to_O13_hyperbolic_translation (- 1, 0, 0) ((1 - 0) * (4 / 10))
   \<and> (\<exists>s2 s4.
         do_movement matrix_view (0 + 1) (tkKeyPress 0 ''a'' (init matrix_view 0)) = Inr s2
         \<and> view_state s2 =
             Some (update_view_state matrix_view identity4
               (Some (unit_3_vector_and_distance_to_O13_hyperbolic_translation (- 1, 0, 0)
                        (1 * (4 / 10)))))
         \<and> do_movement matrix_view 3 (tkKeyRelease 2 ''a'' s2) = Inr s4
         \<and> current_keys_pressed s4 = []
         \<and> view_state s4 = view_state s2
         \<and> scheduled s4 = scheduled s2)"
proof -
  let ?S = "tkKeyPress 0 ''a'' (init matrix_view 0)"
  have i: "current_keys_pressed (init matrix_view 0) = []"
      "view_state (init matrix_view 0) = Some identity4"
      "translationVelocity (init matrix_view 0) = 4 / 10"
    by (simp_all add: init_def matrix_view_def)
  have S: "?S = (init matrix_view 0)
             \<lparr>time_key_release_received := AList.delete ''a'' (time_key_release_received (init matrix_view 0)),
              last_time := (last_time (init matrix_view 0))(''a'' \<mapsto> 0),
              current_keys_pressed := [''a''],
              scheduled := scheduled (init matrix_view 0) @ [1]\<rparr>"
    by (rule press_a_from_idle [OF i(1)])
  have k: "keys_ready [''a''] (last_time ?S)"
      "evict 1 (time_key_release_received ?S) (current_keys_pressed ?S) = [''a'']"
      "[''a''] \<noteq> []" "view_state ?S = Some identity4"
      "rotationVelocity ?S = 4 / 10" "translationVelocity ?S = 4 / 10"
      "last_time ?S = [''a'' \<mapsto> 0]"
    unfolding S using a_bound by (simp_all add: keys_ready_def init_def matrix_view_def)
  have b: "[''a'' \<mapsto> 0 :: real] ''a'' = Some 0" by simp
  have t: "5 / 1000 < (3 :: real) - 2" by simp
  note th = key_motion_integration
         [where ks = "[''a'']" and s = ?S and now = 1 and v = identity4 and rd = matrix_view
            and k = "''a''" and lt = "[''a'' \<mapsto> 0]" and ?t0.0 = 0 and rv = "4 / 10" and tv = "4 / 10"
            and f = "\<lambda>rot_amount trans_amount.
                unit_3_vector_and_distance_to_O13_hyperbolic_translation (- 1, 0, 0) trans_amount"
            and ?s0.0 = "init matrix_view 0" and ?v0.0 = identity4 and t0' = 0 and dt = 1
            and ?t1.0 = 2 and ?t2.0 = 3]
  from th k have A: "\<exists>s'. do_movement matrix_view 1 ?S = Inr s'
         \<and> last_time s' ''a'' = Some 1
         \<and> view_state s' =
             Some (update_view_state matrix_view identity4
               (Some (foldl mat_mul identity4
                  (map (key_operator 1 (4 / 10) (4 / 10) [''a'' \<mapsto> 0]) [''a'']))))"
    by (simp del: mat_mul.simps)
  from th binding_a b have B: "key_operator 1 (4 / 10) (4 / 10) [''a'' \<mapsto> 0] ''a'' =
       unit_3_vector_and_distance_to_O13_hyperbolic_translation (- 1, 0, 0) ((1 - 0) * (4 / 10))"
    by blast
  from th i t have C: "\<exists>s2 s4.
         do_movement matrix_view (0 + 1) ?S = Inr s2
         \<and> view_state s2 =
             Some (update_view_state matrix_view identity4
               (Some (unit_3_vector_and_distance_to_O13_hyperbolic_translation (- 1, 0, 0)
                        (1 * (4 / 10)))))
         \<and> do_movement matrix_view 3 (tkKeyRelease 2 ''a'' s2) = Inr s4
         \<and> current_keys_pressed s4 = []
         \<and> view_state s4 = view_state s2
         \<and> scheduled s4 = scheduled s2"
    by (simp only: i) blast
  from A B C show ?thesis by blast
qed

subsection \<open>Preservation of the Minkowski form\<close>

lemma lorentz_identity: "lorentz identity4"
  by (auto simp: lorentz_def identity4_def)

lemma lorentz_mul: "lorentz A \<Longrightarrow> lorentz B \<Longrightarrow> lorentz (mat_mul A B)"
  unfolding lorentz_def by (metis mat_vec_mul)

lemma rotation_block:
  "(c * y + s * z) * (c * y + s * z) + (c * z - s * y) * (c * z - s * y)
     = (c * c + s * s) * (y * y + z * z)" for c s y z :: real
  by (simp add: algebra_simps)

lemma cos_sin_one: "cos a * cos a + sin a * sin a = (1 :: real)"
  using sin_cos_squared_add2 [of a] by (simp add: power2_eq_square)

lemma lorentz_x_rotation: "lorentz (O13_x_rotation a)"
  unfolding lorentz_def
proof
  fix v :: vec4
  obtain t x y z where v: "v = (t, x, y, z)" by (cases v rule: prod_cases4)
  have "(cos a * y + sin a * z) * (cos a * y + sin a * z)
        + (cos a * z - sin a * y) * (cos a * z - sin a * y) = y * y + z * z"
    by (simp add: rotation_block cos_sin_one)
  then show "Q (mat_vec (O13_x_rotation a) v) = Q v"
    by (simp add: v O13_x_rotation_def Let_def algebra_simps)
qed

lemma lorentz_y_rotation: "lorentz (O13_y_rotation a)"
  unfolding lorentz_def
proof
  fix v :: vec4
  obtain t x y z where v: "v = (t, x, y, z)" by (cases v rule: prod_cases4)
  have "(cos a * z + sin a * x) * (cos a * z + sin a * x)
        + (cos a * x - sin a * z) * (cos a * x - sin a * z) = z * z + x * x"
    by (simp add: rotation_block cos_sin_one)
  then show "Q (mat_vec (O13_y_rotation a) v) = Q v"
    by (simp add: v O13_y_rotation_def Let_def algebra_simps)
qed

lemma lorentz_z_rotation: "lorentz (O13_z_rotation a)"
  unfolding lorentz_def
proof
  fix v :: vec4
  obtain t x y z where v: "v = (t, x, y, z)" by (cases v rule: prod_cases4)
  have "(cos a * x + sin a * y) * (cos a * x + sin a * y)
        + (cos a * y - sin a * x) * (cos a * y - sin a * x) = x * x + y * y"
    by (simp add: rotation_block cos_sin_one)
  then show "Q (mat_vec (O13_z_rotation a) v) = Q v"
    by (simp add: v O13_z_rotation_def Let_def algebra_simps)
qed

lemma boost_space:
  "(w * n1 + x) * (w * n1 + x) + (w * n2 + y) * (w * n2 + y) + (w * n3 + z) * (w * n3 + z)
     = w * w * (n1 * n1 + n2 * n2 + n3 * n3) + 2 * w * (n1 * x + n2 * y + n3 * z)
       + (x * x + y * y + z * z)"
  for w n1 n2 n3 x y z :: real
  by (simp add: algebra_simps)

lemma boost_time:
  "- ((c * t + s * p) * (c * t + s * p)) + (s * t + (c - 1) * p) * (s * t + (c - 1) * p)
     + 2 * (s * t + (c - 1) * p) * p
   = - (c * c - s * s) * (t * t) + (c * c - s * s - 1) * (p * p)"
  for c s t p :: real
  by (simp add: algebra_simps)

lemma cosh_sinh_one: "cosh d * cosh d - sinh d * sinh d = (1 :: real)"
  using cosh_square_eq [of d] by (simp add: power2_eq_square)

lemma lorentz_translation:
  assumes u: "norm_sq3 n = 1"
  shows "lorentz (unit_3_vector_and_distance_to_O13_hyperbolic_translation n d)"
  unfolding lorentz_def
proof
  fix v :: vec4
  obtain t x y z where v: "v = (t, x, y, z)" by (cases v rule: prod_cases4)
  obtain n1 n2 n3 where n: "n = (n1, n2, n3)" by (cases n rule: prod_cases3)
  from u have u': "n1 * n1 + n2 * n2 + n3 * n3 = 1" by (simp add: n)
  define c where "c = cosh d"
  define s where "s = sinh d"
  define p where "p = n1 * x + n2 * y + n3 * z"
  define w where "w = s * t + (c - 1) * p"
  have cs: "c * c - s * s = 1" by (simp add: c_def s_def cosh_sinh_one)
  have mv: "mat_vec (unit_3_vector_and_distance_to_O13_hyperbolic_translation n d) v
      = (c * t + s * p, w * n1 + x, w * n2 + y, w * n3 + z)"
    by (simp add: v n unit_3_vector_and_distance_to_O13_hyperbolic_translation_def
          Let_def c_def s_def p_def w_def algebra_simps)
  have "Q (c * t + s * p, w * n1 + x, w * n2 + y, w * n3 + z)
      = - ((c * t + s * p) * (c * t + s * p))
        + (w * w * (n1 * n1 + n2 * n2 + n3 * n3) + 2 * w * p + (x * x + y * y + z * z))"
    using boost_space [of w n1 x n2 y n3 z] by (simp add: p_def)
  also have "\<dots> = (- ((c * t + s * p) * (c * t + s * p)) + w * w + 2 * w * p)
                   + (x * x + y * y + z * z)"
    by (simp add: u')
  also have "\<dots> = - (t * t) + (x * x + y * y + z * z)"
    using boost_time [of c t s p] by (simp add: w_def cs)
  finally have fin: "Q (c * t + s * p, w * n1 + x, w * n2 + y, w * n3 + z)
      = - (t * t) + (x * x + y * y + z * z)" .
  have "Q v = - (t * t) + (x * x + y * y + z * z)" by (simp add: v)
  with fin show "Q (mat_vec (unit_3_vector_and_distance_to_O13_hyperbolic_translation n d) v) = Q v"
    by (simp only: mv)
qed

lemma lorentz_binding:
  assumes "key_movement_bindings k = Some f"
  shows "lorentz (f r t)"
proof -
  have ax: "lorentz (unit_3_vector_and_distance_to_O13_hyperbolic_translation (- 1, 0, 0) t)"
    "lorentz (unit_3_vector_and_distance_to_O13_hyperbolic_translation (1, 0, 0) t)"
    "lorentz (unit_3_vector_and_distance_to_O13_hyperbolic_translation (0, - 1, 0) t)"
    "lorentz (unit_3_vector_and_distance_to_O13_hyperbolic_translation (0, 1, 0) t)"
    "lorentz (unit_3_vector_and_distance_to_O13_hyperbolic_translation (0, 0, - 1) t)"
    "lorentz (unit_3_vector_and_distance_to_O13_hyperbolic_translation (0, 0, 1) t)"
    by (simp_all add: lorentz_translation)
  from assms show ?thesis
    unfolding key_movement_bindings_def
    by (auto simp: ax lorentz_x_rotation lorentz_y_rotation lorentz_z_rotation
             split: if_splits)
qed

lemma lorentz_key_operator: "lorentz (key_operator now rv tv lt k)"
  by (simp add: key_operator_def lorentz_identity lorentz_binding split: option.splits)

lemma integrate_lorentz:
  "integrate now rv tv ks (lt, m0, a) = Inr (lt', m, a') \<Longrightarrow> lorentz m0 \<Longrightarrow> lorentz m"
proof (induction ks arbitrary: lt m0 a)
  case Nil
  then show ?case by simp
next
  case (Cons k ks)
  show ?case
  proof (cases "key_movement_bindings k")
    case None
    with Cons.prems(1) have "integrate now rv tv ks (lt, m0, a) = Inr (lt', m, a')" by simp
    from Cons.IH [OF this Cons.prems(2)] show ?thesis .
  next
    case (Some f)
    show ?thesis
    proof (cases "lt k")
      case None
      with Some Cons.prems(1) show ?thesis by simp
    next
      case (Some t0)
      have l: "lorentz (mat_mul m0 (f ((now - t0) * rv) ((now - t0) * tv)))"
        by (rule lorentz_mul [OF Cons.prems(2) lorentz_binding [OF \<open>key_movement_bindings k = Some f\<close>]])
      from Cons.prems(1) \<open>key_movement_bindings k = Some f\<close> Some
      have "integrate now rv tv ks
              (lt(k \<mapsto> now), mat_mul m0 (f ((now - t0) * rv) ((now - t0) * tv)), True)
            = Inr (lt', m, a')"
        by (simp add: Let_def del: mat_mul.simps)
      from Cons.IH [OF this l] show ?thesis .
    qed
  qed
qed

lemma free_direction_unit:
  assumes "sqrt (real_of_int (dx ^ 2 + dy ^ 2)) \<noteq> 0"
  shows "norm_sq3 (- real_of_int dx / sqrt (real_of_int (dx ^ 2 + dy ^ 2)),
                   real_of_int dy / sqrt (real_of_int (dx ^ 2 + dy ^ 2)), 0) = 1"
proof -
  define S where "S = real_of_int (dx ^ 2 + dy ^ 2)"
  have nn: "0 \<le> S" unfolding S_def by simp
  have ns: "sqrt S \<noteq> 0" using assms unfolding S_def .
  then have "S \<noteq> 0" by (metis real_sqrt_zero)
  with nn have pos: "0 < S" by simp
  have sq: "sqrt S * sqrt S = S" using nn by simp
  have S': "S = real_of_int dx * real_of_int dx + real_of_int dy * real_of_int dy"
    by (simp add: S_def power2_eq_square)
  have "norm_sq3 (- real_of_int dx / sqrt S, real_of_int dy / sqrt S, 0)
      = (real_of_int dx * real_of_int dx + real_of_int dy * real_of_int dy) / (sqrt S * sqrt S)"
    by (simp add: add_divide_distrib)
  also have "\<dots> = S / S" by (simp only: sq S' [symmetric])
  also have "\<dots> = 1" using pos by simp
  finally show ?thesis by (simp only: S_def)
qed

subsection \<open>Every operator of a run preserves the Minkowski form\<close>

lemma init_recorded: "recorded_lorentz (init recorder v0)"
  by (simp add: recorded_lorentz_def init_def recorder_def)

lemma tkKeyPress_recorded: "recorded_lorentz (tkKeyPress now k s) = recorded_lorentz s"
  by (simp add: recorded_lorentz_def tkKeyPress_def Let_def)

lemma tkKeyRelease_recorded: "recorded_lorentz (tkKeyRelease now k s) = recorded_lorentz s"
  by (simp add: recorded_lorentz_def tkKeyRelease_def)

lemma tkButton1_recorded: "recorded_lorentz s \<Longrightarrow> recorded_lorentz (tkButton1 ev s)"
  by (simp add: recorded_lorentz_def tkButton1_def)

lemma tkButtonRelease1_recorded: "recorded_lorentz (tkButtonRelease1 s) = recorded_lorentz s"
  by (simp add: recorded_lorentz_def tkButtonRelease1_def)

lemma do_movement_recorded:
  assumes "recorded_lorentz s"
  shows "recorded_lorentz (outcome_state (do_movement recorder now s))"
proof (cases "integrate now (rotationVelocity s) (translationVelocity s)
                (evict now (time_key_release_received s) (current_keys_pressed s))
                (last_time s, identity4, False)")
  case (Inl err)
  then show ?thesis
    using assms
    by (simp add: do_movement_def Let_def outcome_state_def recorded_lorentz_def split: prod.splits)
next
  case (Inr res)
  obtain lt m a where res: "res = (lt, m, a)" by (cases res)
  have l: "lorentz m"
    using integrate_lorentz [OF Inr [unfolded res] lorentz_identity] .
  show ?thesis
    using assms Inr l
    by (simp add: do_movement_def Let_def outcome_state_def recorded_lorentz_def res recorder_def
          split: option.splits)
qed

lemma tkButtonMotion1_recorded:
  assumes "recorded_lorentz s"
  shows "recorded_lorentz (outcome_state (tkButtonMotion1 recorder ev s))"
proof (cases "mouse_pos_when_pressed s")
  case None
  then show ?thesis using assms by (simp add: tkButtonMotion1_def outcome_state_def)
next
  case (Some p)
  obtain px py where p: "p = (px, py)" by (cases p)
  obtain x y where ev: "ev = (x, y)" by (cases ev)
  show ?thesis
  proof (cases "sqrt (real_of_int ((x - px) ^ 2 + (y - py) ^ 2)) = 0")
    case True
    then show ?thesis
      using assms Some
      by (simp add: tkButtonMotion1_def outcome_state_def p ev Let_def recorded_lorentz_def)
  next
    case False
    have "lorentz (unit_3_vector_and_distance_to_O13_hyperbolic_translation
             (- real_of_int (x - px) / sqrt (real_of_int ((x - px) ^ 2 + (y - py) ^ 2)),
              real_of_int (y - py) / sqrt (real_of_int ((x - px) ^ 2 + (y - py) ^ 2)), 0)
             (sqrt (real_of_int ((x - px) ^ 2 + (y - py) ^ 2)) * 0.01))"
      by (rule lorentz_translation [OF free_direction_unit [OF False]])
    then show ?thesis
      using assms Some False
      by (simp add: tkButtonMotion1_def outcome_state_def p ev Let_def recorded_lorentz_def
            recorder_def del: real_sqrt_eq_zero_cancel_iff split: option.splits)
  qed
qed

lemma tkCtrlButtonMotion1_recorded:
  assumes "recorded_lorentz s"
  shows "recorded_lorentz (outcome_state (tkCtrlButtonMotion1 recorder ev s))"
proof (cases "mouse_pos_when_pressed s")
  case None
  then show ?thesis using assms by (simp add: tkCtrlButtonMotion1_def outcome_state_def)
next
  case (Some p)
  obtain px py where p: "p = (px, py)" by (cases p)
  obtain x y where ev: "ev = (x, y)" by (cases ev)
  have "lorentz (mat_mul (O13_y_rotation a) (O13_x_rotation b))" for a b
    by (rule lorentz_mul [OF lorentz_y_rotation lorentz_x_rotation])
  then show ?thesis
    using assms Some
    by (simp add: tkCtrlButtonMotion1_def outcome_state_def Let_def recorded_lorentz_def
          recorder_def p ev del: mat_mul.simps split: option.splits)
qed

lemma tkAltButton1_recorded:
  assumes "recorded_lorentz s"
  shows "recorded_lorentz (outcome_state (tkAltButton1 fov reading ev s))"
proof -
  obtain x y where ev: "ev = (x, y)" by (cases ev)
  obtain depth width height where rd: "reading = (depth, width, height)"
    by (cases reading rule: prod_cases3)
  have "lorentz (unit_3_vector_and_distance_to_O13_hyperbolic_translation
           (normalized ((real_of_int x - 0.5 * width) / width,
                        ((height - real_of_int y) - 0.5 * height) / width,
                        - 0.5 / tan (fov / 360 * pi))) d)"
    if "tan (fov / 360 * pi) \<noteq> 0" for d
  proof -
    have z: "- 0.5 / tan (fov / 360 * pi) \<noteq> 0" using that by simp
    show ?thesis by (rule lorentz_translation [OF normalized_unit [OF z]])
  qed
  then show ?thesis
    using assms
    by (simp add: tkAltButton1_def outcome_state_def Let_def recorded_lorentz_def ev rd
          lorentz_identity)
qed

lemma tkAltButtonMotion1_recorded:
  assumes "recorded_lorentz s"
  shows "recorded_lorentz (outcome_state (tkAltButtonMotion1 recorder ev s))"
proof (cases "last_mouse_pos s")
  case None
  then show ?thesis using assms by (simp add: tkAltButtonMotion1_def outcome_state_def)
next
  case (Some p)
  obtain lx ly where p: "p = (lx, ly)" by (cases p)
  obtain x y where ev: "ev = (x, y)" by (cases ev)
  have m: "lorentz (mat_mul (O13_y_rotation a) (O13_x_rotation b))" for a b
    by (rule lorentz_mul [OF lorentz_y_rotation lorentz_x_rotation])
  have sw: "lorentz (mat_mul (mat_mul F (mat_mul R (mat_mul (O13_y_rotation a) (O13_x_rotation b)))) G)"
    if "lorentz F" "lorentz R" "lorentz G" for F R G a b
    by (intro lorentz_mul that m)
  have acc: "lorentz (mat_mul R (mat_mul (O13_y_rotation a) (O13_x_rotation b)))"
    if "lorentz R" for R a b
    by (intro lorentz_mul that m)
  show ?thesis
    using assms Some sw acc
    by (simp add: tkAltButtonMotion1_def outcome_state_def Let_def recorded_lorentz_def
          recorder_def p ev del: mat_mul.simps split_paired_All split_paired_Ex
          split: option.splits)
qed

lemma step_recorded:
  assumes "recorded_lorentz s"
  shows "recorded_lorentz (outcome_state (step recorder e s))"
proof (cases e)
  case (Timer now)
  show ?thesis
  proof (cases "scheduled s")
    case Nil
    with Timer assms show ?thesis by simp
  next
    case (Cons d rest)
    have "recorded_lorentz (s\<lparr>scheduled := rest\<rparr>)"
      using assms by (simp add: recorded_lorentz_def)
    from do_movement_recorded [OF this, of now] show ?thesis using Timer Cons by simp
  qed
qed (use assms in \<open>simp_all add: tkEnter_def tkKeyPress_recorded tkKeyRelease_recorded
       tkButton1_recorded tkButtonRelease1_recorded tkButtonMotion1_recorded
       tkCtrlButtonMotion1_recorded tkAltButton1_recorded tkAltButtonMotion1_recorded\<close>)

lemma run_recorded:
  "recorded_lorentz s \<Longrightarrow> recorded_lorentz (outcome_state (run recorder evs s))"
proof (induction evs arbitrary: s)
  case Nil
  then show ?case by simp
next
  case (Cons e evs)
  show ?case
  proof (cases "step recorder e s")
    case (Inl err)
    with step_recorded [OF Cons.prems, of e] show ?thesis by simp
  next
    case (Inr s')
    with step_recorded [OF Cons.prems, of e] have "recorded_lorentz s'" by simp
    from Cons.IH [OF this] show ?thesis using Inr by simp
  qed
qed


text \<open>
  C1. Over the reals, the operators of the navigation core preserve the Minkowski form
  \<open>Q\<close> of signature \<open>(-,+,+,+)\<close> exactly: the operator of each of the twelve key
  bindings for any amounts, the three rotations for any angle, the translation along any
  direction of length one, and in particular the translation of the free gesture for a
  nonzero delta and the two translations of the orbit gesture; the product of two
  operators that preserve the form; the matrix that a tick accumulates; and, for every
  sequence of events delivered to a fresh instance, every operator that the handlers
  hand to the collaborator over the run.
\<close>

theorem operators_preserve_minkowski_form:
  "(key_movement_bindings k = Some f \<longrightarrow> Q (mat_vec (f rot_amount trans_amount) v) = Q v)
   \<and> Q (mat_vec (O13_x_rotation angle) v) = Q v
   \<and> Q (mat_vec (O13_y_rotation angle) v) = Q v
   \<and> Q (mat_vec (O13_z_rotation angle) v) = Q v
   \<and> (norm_sq3 n = 1 \<longrightarrow> Q (mat_vec (unit_3_vector_and_distance_to_O13_hyperbolic_translation n d) v) = Q v)
   \<and> ((x, y) \<noteq> (px, py) \<longrightarrow> Q (mat_vec (unit_3_vector_and_distance_to_O13_hyperbolic_translation (- real_of_int (x - px) / sqrt (real_of_int ((x - px) ^ 2 + (y - py) ^ 2)), real_of_int (y - py) / sqrt (real_of_int ((x - px) ^ 2 + (y - py) ^ 2)), 0) (sqrt (real_of_int ((x - px) ^ 2 + (y - py) ^ 2)) * 0.01)) v) = Q v)
   \<and> (tan (fov / 360 * pi) \<noteq> 0 \<longrightarrow> Q (mat_vec (unit_3_vector_and_distance_to_O13_hyperbolic_translation (normalized ((real_of_int x - 0.5 * width) / width, ((height - real_of_int y) - 0.5 * height) / width, - 0.5 / tan (fov / 360 * pi))) dd) v) = Q v)
   \<and> (lorentz A \<and> lorentz B \<longrightarrow> Q (mat_vec (mat_mul A B) v) = Q v)
   \<and> (integrate now rv tv ks (lt, identity4, False) = Inr (lt', m, a) \<longrightarrow> Q (mat_vec m v) = Q v)
   \<and> (M \<in> set (case view_state (outcome_state (run recorder evs (init recorder v0))) of None \<Rightarrow> [] | Some ms \<Rightarrow> ms) \<longrightarrow> Q (mat_vec M v) = Q v)"
proof -
  have b: "key_movement_bindings k = Some f \<longrightarrow> lorentz (f rot_amount trans_amount)"
    using lorentz_binding by blast
  have t: "norm_sq3 n = 1 \<longrightarrow> lorentz (unit_3_vector_and_distance_to_O13_hyperbolic_translation n d)"
    using lorentz_translation by blast
  have fr: "(x, y) \<noteq> (px, py) \<longrightarrow> lorentz (unit_3_vector_and_distance_to_O13_hyperbolic_translation (- real_of_int (x - px) / sqrt (real_of_int ((x - px) ^ 2 + (y - py) ^ 2)), real_of_int (y - py) / sqrt (real_of_int ((x - px) ^ 2 + (y - py) ^ 2)), 0) (sqrt (real_of_int ((x - px) ^ 2 + (y - py) ^ 2)) * 0.01))"
  proof
    assume "(x, y) \<noteq> (px, py)"
    then have nz: "sqrt (real_of_int ((x - px) ^ 2 + (y - py) ^ 2)) \<noteq> 0"
      using amt_zero_iff [of x px y py] by simp
    show "lorentz (unit_3_vector_and_distance_to_O13_hyperbolic_translation (- real_of_int (x - px) / sqrt (real_of_int ((x - px) ^ 2 + (y - py) ^ 2)), real_of_int (y - py) / sqrt (real_of_int ((x - px) ^ 2 + (y - py) ^ 2)), 0) (sqrt (real_of_int ((x - px) ^ 2 + (y - py) ^ 2)) * 0.01))"
      by (rule lorentz_translation [OF free_direction_unit [OF nz]])
  qed
  have ob: "tan (fov / 360 * pi) \<noteq> 0 \<longrightarrow> lorentz (unit_3_vector_and_distance_to_O13_hyperbolic_translation (normalized ((real_of_int x - 0.5 * width) / width, ((height - real_of_int y) - 0.5 * height) / width, - 0.5 / tan (fov / 360 * pi))) dd)"
  proof
    assume "tan (fov / 360 * pi) \<noteq> 0"
    then have z: "- 0.5 / tan (fov / 360 * pi) \<noteq> 0" by simp
    show "lorentz (unit_3_vector_and_distance_to_O13_hyperbolic_translation (normalized ((real_of_int x - 0.5 * width) / width, ((height - real_of_int y) - 0.5 * height) / width, - 0.5 / tan (fov / 360 * pi))) dd)"
      by (rule lorentz_translation [OF normalized_unit [OF z]])
  qed
  have pr: "lorentz A \<and> lorentz B \<longrightarrow> lorentz (mat_mul A B)"
    using lorentz_mul by blast
  have ig: "integrate now rv tv ks (lt, identity4, False) = Inr (lt', m, a) \<longrightarrow> lorentz m"
    using integrate_lorentz [OF _ lorentz_identity] by blast
  have rn: "M \<in> set (case view_state (outcome_state (run recorder evs (init recorder v0))) of None \<Rightarrow> [] | Some ms \<Rightarrow> ms) \<longrightarrow> lorentz M"
  proof (cases "view_state (outcome_state (run recorder evs (init recorder v0)))")
    case None
    then show ?thesis by simp
  next
    case (Some ms)
    from run_recorded [OF init_recorded, of evs v0] have "list_all lorentz ms"
      by (simp add: recorded_lorentz_def Some)
    then have "\<forall>N \<in> set ms. lorentz N" by (simp only: list_all_iff)
    then show ?thesis unfolding Some by (simp only: option.case) blast
  qed
  from b t fr ob pr ig rn lorentz_x_rotation [of angle] lorentz_y_rotation [of angle]
       lorentz_z_rotation [of angle]
  show ?thesis
    unfolding lorentz_def by blast
qed


lemma recorder_run_a:
  "view_state (outcome_state (run recorder [KeyPress 0 ''a'', Timer 1] (init recorder 0))) =
     Some [unit_3_vector_and_distance_to_O13_hyperbolic_translation (- 1, 0, 0) (4 / 10)]"
proof -
  have i: "current_keys_pressed (init recorder 0) = []" by (simp add: init_def)
  define s1 where "s1 = (init recorder 0)
             \<lparr>time_key_release_received := AList.delete ''a'' (time_key_release_received (init recorder 0)),
              last_time := (last_time (init recorder 0))(''a'' \<mapsto> 0),
              current_keys_pressed := [''a''],
              scheduled := []\<rparr>"
  have p: "tkKeyPress 0 ''a'' (init recorder 0) = s1\<lparr>scheduled := [1]\<rparr>"
    unfolding s1_def by (simp add: press_a_from_idle [OF i]) (simp add: init_def)
  have e: "evict 1 (time_key_release_received s1) (current_keys_pressed s1) = [''a'']"
    by (simp add: s1_def init_def)
  have rdy: "keys_ready [''a''] (last_time s1)"
    using a_bound by (simp add: keys_ready_def s1_def)
  have v: "view_state s1 = Some []" by (simp add: s1_def init_def recorder_def)
  have f: "foldl mat_mul identity4
             (map (key_operator 1 (rotationVelocity s1) (translationVelocity s1) (last_time s1))
                [''a''])
         = unit_3_vector_and_distance_to_O13_hyperbolic_translation (- 1, 0, 0) (4 / 10)"
    by (simp add: key_operator_def binding_a s1_def init_def mat_mul_identity_left
          del: mat_mul.simps)
  have dm: "do_movement recorder 1 s1 =
           Inr (s1\<lparr>current_keys_pressed := [''a''],
                  last_time := (\<lambda>k. if k \<in> set [''a''] then Some 1 else last_time s1 k),
                  view_state := Some (update_view_state recorder []
                    (Some (unit_3_vector_and_distance_to_O13_hyperbolic_translation (- 1, 0, 0) (4 / 10)))),
                  redraws := Suc (redraws s1),
                  scheduled := scheduled s1 @ [refresh_delay s1]\<rparr>)"
    using do_movement_moving [OF e _ rdy v, of recorder, unfolded f] by blast
  have id: "s1\<lparr>scheduled := []\<rparr> = s1" by (simp add: s1_def)
  show ?thesis
    by (simp add: p id dm) (simp add: recorder_def)
qed

text \<open>
  The key \<open>a\<close> pressed at time 0 and integrated at time 1, a free drag from
  (100, 100) to (103, 104), and an orbit press in a 100 by 100 viewport with field of
  view 90 degrees.
\<close>

theorem operators_preserve_minkowski_form_witness:
  "key_movement_bindings ''a'' = Some (\<lambda>rot_amount trans_amount. unit_3_vector_and_distance_to_O13_hyperbolic_translation (- 1, 0, 0) trans_amount)
   \<and> norm_sq3 (1, 0, 0) = 1
   \<and> ((103 :: int), (104 :: int)) \<noteq> ((100 :: int), (100 :: int))
   \<and> tan ((90 :: real) / 360 * pi) \<noteq> 0
   \<and> lorentz identity4 \<and> lorentz identity4
   \<and> integrate 1 (4 / 10) (4 / 10) [''a''] ([''a'' \<mapsto> 0], identity4, False) = Inr ((\<lambda>k. if k \<in> set [''a''] then Some 1 else [''a'' \<mapsto> 0] k), (foldl mat_mul identity4 (map (key_operator 1 (4 / 10) (4 / 10) [''a'' \<mapsto> 0]) [''a''])), (False \<or> [''a''] \<noteq> []))
   \<and> (unit_3_vector_and_distance_to_O13_hyperbolic_translation (- 1, 0, 0) (4 / 10)) \<in> set (case view_state (outcome_state (run recorder [KeyPress 0 ''a'', Timer 1] (init recorder 0))) of None \<Rightarrow> [] | Some ms \<Rightarrow> ms)
   \<and> Q (mat_vec ((\<lambda>rot_amount trans_amount. unit_3_vector_and_distance_to_O13_hyperbolic_translation (- 1, 0, 0) trans_amount) 1 (4 / 10)) (1, 2, 3, 4)) = Q (1, 2, 3, 4)
   \<and> Q (mat_vec (O13_x_rotation 1) (1, 2, 3, 4)) = Q (1, 2, 3, 4)
   \<and> Q (mat_vec (O13_y_rotation 1) (1, 2, 3, 4)) = Q (1, 2, 3, 4)
   \<and> Q (mat_vec (O13_z_rotation 1) (1, 2, 3, 4)) = Q (1, 2, 3, 4)
   \<and> Q (mat_vec (unit_3_vector_and_distance_to_O13_hyperbolic_translation (1, 0, 0) 1) (1, 2, 3, 4)) = Q (1, 2, 3, 4)
   \<and> Q (mat_vec (unit_3_vector_and_distance_to_O13_hyperbolic_translation (- real_of_int ((103 :: int) - (100 :: int)) / sqrt (real_of_int (((103 :: int) - (100 :: int)) ^ 2 + ((104 :: int) - (100 :: int)) ^ 2)), real_of_int ((104 :: int) - (100 :: int)) / sqrt (real_of_int (((103 :: int) - (100 :: int)) ^ 2 + ((104 :: int) - (100 :: int)) ^ 2)), 0) (sqrt (real_of_int (((103 :: int) - (100 :: int)) ^ 2 + ((104 :: int) - (100 :: int)) ^ 2)) * 0.01)) (1, 2, 3, 4)) = Q (1, 2, 3, 4)
   \<and> Q (mat_vec (unit_3_vector_and_distance_to_O13_hyperbolic_translation (normalized ((real_of_int (103 :: int) - 0.5 * (100 :: real)) / (100 :: real), (((100 :: real) - real_of_int (104 :: int)) - 0.5 * (100 :: real)) / (100 :: real), - 0.5 / tan ((90 :: real) / 360 * pi))) 0) (1, 2, 3, 4)) = Q (1, 2, 3, 4)
   \<and> Q (mat_vec (mat_mul identity4 identity4) (1, 2, 3, 4)) = Q (1, 2, 3, 4)
   \<and> Q (mat_vec (foldl mat_mul identity4 (map (key_operator 1 (4 / 10) (4 / 10) [''a'' \<mapsto> 0]) [''a''])) (1, 2, 3, 4)) = Q (1, 2, 3, 4)
   \<and> Q (mat_vec (unit_3_vector_and_distance_to_O13_hyperbolic_translation (- 1, 0, 0) (4 / 10)) (1, 2, 3, 4)) = Q (1, 2, 3, 4)"
proof -
  have rdy: "keys_ready [''a''] [''a'' \<mapsto> 0]"
    using a_bound by (simp add: keys_ready_def)
  have h0: "key_movement_bindings ''a'' = Some (\<lambda>rot_amount trans_amount. unit_3_vector_and_distance_to_O13_hyperbolic_translation (- 1, 0, 0) trans_amount)"
    by (rule binding_a)
  have h1: "norm_sq3 (1, 0, 0) = 1"
    by simp
  have h2: "((103 :: int), (104 :: int)) \<noteq> ((100 :: int), (100 :: int))"
    by simp
  have h3: "tan ((90 :: real) / 360 * pi) \<noteq> 0"
    unfolding tan_fov_90 by simp
  have h4: "lorentz identity4 \<and> lorentz identity4"
    using lorentz_identity by simp
  have h5: "integrate 1 (4 / 10) (4 / 10) [''a''] ([''a'' \<mapsto> 0], identity4, False) = Inr ((\<lambda>k. if k \<in> set [''a''] then Some 1 else [''a'' \<mapsto> 0] k), (foldl mat_mul identity4 (map (key_operator 1 (4 / 10) (4 / 10) [''a'' \<mapsto> 0]) [''a''])), (False \<or> [''a''] \<noteq> []))"
    by (rule integrate_foldl [OF rdy])
  have h6: "(unit_3_vector_and_distance_to_O13_hyperbolic_translation (- 1, 0, 0) (4 / 10)) \<in> set (case view_state (outcome_state (run recorder [KeyPress 0 ''a'', Timer 1] (init recorder 0))) of None \<Rightarrow> [] | Some ms \<Rightarrow> ms)"
    by (simp only: recorder_run_a) simp
  note th = operators_preserve_minkowski_form [where k = "''a''" and f = "(\<lambda>rot_amount trans_amount. unit_3_vector_and_distance_to_O13_hyperbolic_translation (- 1, 0, 0) trans_amount)" and rot_amount = "1" and trans_amount = "4 / 10" and v = "(1, 2, 3, 4)" and angle = "1" and n = "(1, 0, 0)" and d = "1" and x = "103" and y = "104" and px = "100" and py = "100" and fov = "90" and width = "100" and height = "100" and dd = "0" and A = "identity4" and B = "identity4" and now = "1" and rv = "4 / 10" and tv = "4 / 10" and ks = "[''a'']" and lt = "[''a'' \<mapsto> 0]" and lt' = "(\<lambda>k. if k \<in> set [''a''] then Some 1 else [''a'' \<mapsto> 0] k)" and m = "foldl mat_mul identity4 (map (key_operator 1 (4 / 10) (4 / 10) [''a'' \<mapsto> 0]) [''a''])" and a = "False \<or> [''a''] \<noteq> []" and M = "unit_3_vector_and_distance_to_O13_hyperbolic_translation (- 1, 0, 0) (4 / 10)" and evs = "[KeyPress 0 ''a'', Timer 1]" and ?v0.0 = "0"]
  from th h0 h1 h2 h3 h4 h5 h6
  show ?thesis by blast
qed

end
